theory Spec2Isabelle
  imports Main "HOL-Library.AList" "HOL-Library.Sublist"
begin

section \<open>The NASL lint passes of nasl/lint.c\<close>

subsection \<open>Syntax tree\<close>

text \<open>
  The node kinds that lint.c names, and four more of the language that it only meets in its
  default branches. The declaration of the tree (nasl\_tree.h) is not part of the sources at
  hand; the fields are the ones lint.c reads: \<open>type\<close>, \<open>line_nb\<close>, \<open>x.str_val\<close> and
  \<open>link[0..3]\<close>.
\<close>

datatype node_type =
    NODE_FUN_CALL | NODE_FUN_DEF | NODE_VAR | NODE_ARRAY_EL
  | NODE_AFF | EXPR_NOT | EXPR_INCR | NODE_PLUS_EQ
  | NODE_DECL | NODE_GLOBAL | NODE_LOCAL | NODE_FOREACH
  | CONST_DATA | CONST_STR
  | CONST_INT | NODE_ARG | NODE_INSTR_L | NODE_RETURN

text \<open>
  A value of \<open>tree_cell\<close> is a pointer of the C code: the null pointer, the sentinel
  \<open>FAKE_CELL\<close>, or a cell with its four links. \<open>x.str_val\<close> may be null.
\<close>

datatype tree_cell =
    NULL_CELL
  | FAKE_CELL
  | Cell node_type int "string option" tree_cell tree_cell tree_cell tree_cell

subsection \<open>Diagnostics\<close>

datatype message =
    UndefinedFunction "string option"
  | DuplicateFunctionDefinition "string option"
  | DuplicateCallParameter string "string option"
  | UndeclaredVariable "string option"
  | UnusedIncludeFile "string option"

datatype diagnostic = Diag message int "string option"

subsection \<open>State\<close>

text \<open>\<open>struct st_func_info\<close>: one record per call met by the definition pass.\<close>

record func_info =
  func_name :: "string option"
  caller_func :: "string option"
  caller_file :: "string option"

text \<open>The two fields of a \<open>lex_ctxt\<close> that the lint passes touch.\<close>

record lex_ctxt =
  ctx_functions :: "string list"
  line_nb :: int

text \<open>
  The collaborators of the passes that are no part of lint.c: the names the runtime resolves
  as builtin functions, the parser's table from a function name to the file that defines
  it, and the names \<open>add_nasl_library\<close> adds to the predefined variables.
\<close>

record env =
  builtin :: "string list"
  functions_filenames :: "(string \<times> string) list"
  nasl_library :: "string list"

text \<open>
  Everything the passes read and write. The first group are the objects the two context
  pointers of \<open>nasl_lint\<close> refer to; the second the local tables of \<open>nasl_lint\<close>, handed
  to the passes by reference; the third the variables of static storage duration
  (\<open>nasl_name\<close> and the \<open>static\<close> locals of the passes); then the current file name of the
  error reporting and the diagnostics written so far.
\<close>

record lint_state =
  lexic :: lex_ctxt
  lexic_aux :: lex_ctxt

  include_files :: "(string option \<times> string) list"
  func_fnames_tab :: "(string option \<times> string option) list"
  unusedfiles :: "string option list"
  called_funcs :: "string list"
  def_func_tree :: "func_info list"
  defined_var :: "string list"

  nasl_name :: "string option"
  current_fun_def :: "string option"
  defined_flag :: int
  defined_fn_mode :: int
  defined_var_mode :: int
  def_glob_var :: int
  local_var_list :: "string list"

  debug_filename :: "string option"
  diags :: "diagnostic list"

datatype lexptr = LEXIC | LEXIC_AUX

definition ctxt :: "lexptr \<Rightarrow> lint_state \<Rightarrow> lex_ctxt" where
  "ctxt p s = (case p of LEXIC \<Rightarrow> lexic s | LEXIC_AUX \<Rightarrow> lexic_aux s)"

definition ctxt_update :: "lexptr \<Rightarrow> (lex_ctxt \<Rightarrow> lex_ctxt) \<Rightarrow> lint_state \<Rightarrow> lint_state" where
  "ctxt_update p f s =
     (case p of LEXIC \<Rightarrow> s\<lparr>lexic := f (lexic s)\<rparr> | LEXIC_AUX \<Rightarrow> s\<lparr>lexic_aux := f (lexic_aux s)\<rparr>)"

subsection \<open>Collaborators outside lint.c\<close>

text \<open>
  Modelled from the spec: \<open>get_func_ref_by_name\<close> (nasl\_func.c is missing). The spec's
  builtin-function resolver maps a name to a builtin reference or to nothing, and a call is
  resolved against the builtins and the user definitions of the context.
\<close>

definition get_func_ref_by_name :: "env \<Rightarrow> lexptr \<Rightarrow> lint_state \<Rightarrow> string option \<Rightarrow> bool" where
  "get_func_ref_by_name e p s name =
     (case name of None \<Rightarrow> False
      | Some n \<Rightarrow> n \<in> set (builtin e) \<or> n \<in> set (ctx_functions (ctxt p s)))"

text \<open>
  Modelled from the spec: \<open>nasl_perror\<close> (nasl\_debug.c is missing). The diagnostic sink
  takes a message with the line number of the context and the active file name.
\<close>

definition nasl_perror :: "lexptr \<Rightarrow> message \<Rightarrow> lint_state \<Rightarrow> lint_state" where
  "nasl_perror p m s = s\<lparr>diags := diags s @ [Diag m (line_nb (ctxt p s)) (debug_filename s)]\<rparr>"

text \<open>
  Modelled from the spec: \<open>decl_nasl_func\<close> (nasl\_func.c is missing). It attempts to
  register a function record under the name; when a record with that name exists already
  it fails, and in the duplicate-check mode (0) it reports the duplicate definition.
  The result is \<open>FAKE_CELL\<close> on success and the null pointer on failure.
\<close>

definition decl_nasl_func ::
  "lexptr \<Rightarrow> string option \<Rightarrow> int \<Rightarrow> lint_state \<Rightarrow> tree_cell \<times> lint_state" where
  "decl_nasl_func p name lint_mode s =
     (case name of None \<Rightarrow> (FAKE_CELL, s)
      | Some n \<Rightarrow>
          if n \<in> set (ctx_functions (ctxt p s))
          then (NULL_CELL,
                if lint_mode = 0 then nasl_perror p (DuplicateFunctionDefinition name) s else s)
          else (FAKE_CELL, ctxt_update p (\<lambda>c. c\<lparr>ctx_functions := n # ctx_functions c\<rparr>) s))"

text \<open>
  Modelled from the spec: \<open>nasl_get_filename\<close> and \<open>nasl_set_filename\<close> (nasl\_debug.c is
  missing). The include-filename resolver maps a function name to the file that owns it;
  a name without an owner, and the null name, give the current file marker, which
  \<open>nasl_set_filename\<close> switches.
\<close>

definition nasl_get_filename :: "env \<Rightarrow> string option \<Rightarrow> lint_state \<Rightarrow> string option" where
  "nasl_get_filename e function s =
     (case function of None \<Rightarrow> debug_filename s
      | Some f \<Rightarrow>
          (case map_of (functions_filenames e) f of
             Some file \<Rightarrow> Some file
           | None \<Rightarrow> debug_filename s))"

definition nasl_set_filename :: "string \<Rightarrow> lint_state \<Rightarrow> lint_state" where
  "nasl_set_filename filename s = s\<lparr>debug_filename := Some filename\<rparr>"

text \<open>
  Modelled from the spec: \<open>init_empty_lex_ctxt\<close> is part of the sources, but the
  \<open>init_nasl_library\<close> it ends with is not. The fresh context has an empty function table
  (builtins are resolved by the resolver above) and, being zero-filled, line number 0.
\<close>

definition init_empty_lex_ctxt :: lex_ctxt where
  "init_empty_lex_ctxt = \<lparr>ctx_functions = [], line_nb = 0\<rparr>"

subsection \<open>GLib\<close>

text \<open>
  \<open>g_slist_find_custom\<close> returns the first element that the comparison accepts (the C
  comparison returns 0); \<open>g_str_has_suffix\<close> is false on a null string.
\<close>

definition g_slist_find_custom :: "'a list \<Rightarrow> 'd \<Rightarrow> ('a \<Rightarrow> 'd \<Rightarrow> bool) \<Rightarrow> 'a option" where
  "g_slist_find_custom xs data cmp = find (\<lambda>x. cmp x data) xs"

definition g_str_has_suffix :: "string option \<Rightarrow> string \<Rightarrow> bool" where
  "g_str_has_suffix str sfx = (case str of None \<Rightarrow> False | Some s \<Rightarrow> suffix sfx s)"

subsection \<open>lint.c\<close>

definition add_predef_varname :: "env \<Rightarrow> lint_state \<Rightarrow> lint_state" where
  "add_predef_varname e s =
     s\<lparr>defined_var :=
         nasl_library e @
         rev [''ACT_UNKNOWN'', ''description'', ''NULL'', ''SCRIPT_NAME'',
              ''COMMAND_LINE'', ''_FCT_ANON_ARGS''] @ defined_var s\<rparr>"

definition list_cmp1 :: "func_info \<Rightarrow> string option \<Rightarrow> bool" where
  "list_cmp1 lelem data = (data \<noteq> None \<and> func_name lelem = data)"

definition list_cmp :: "string \<Rightarrow> string option \<Rightarrow> bool" where
  "list_cmp lelem data = (data \<noteq> None \<and> Some lelem = data)"

text \<open>
  \<open>reverse_search\<close> calls itself on the record it finds for the caller; nothing bounds the
  chain, so the model is a partial function and \<open>None\<close> stands for a search that does not
  return. The first argument is the global \<open>nasl_name\<close>.
\<close>

partial_function (option) reverse_search ::
  "string option \<Rightarrow> func_info list \<Rightarrow> func_info \<Rightarrow> int option" where
  "reverse_search nm dft fdata =
     (if caller_file fdata = nm \<and> \<not> g_str_has_suffix nm ''.inc'' then Some 1
      else if func_name fdata = caller_func fdata then Some 0
      else (case g_slist_find_custom dft (caller_func fdata) list_cmp1 of
              Some finfo_aux \<Rightarrow>
                Option.bind (reverse_search nm dft finfo_aux)
                  (\<lambda>r. if r \<noteq> 0 then Some 1 else Some 0)
            | None \<Rightarrow> Some 0))"

declare reverse_search.simps [code]

definition check_called_files :: "string option \<times> string \<Rightarrow> string option list \<Rightarrow> string option list" where
  "check_called_files kv unused =
     (if fst kv \<noteq> None \<and> snd kv = ''NO'' then fst kv # unused else unused)"

definition print_uncall_files :: "string option \<Rightarrow> lint_state \<Rightarrow> lint_state" where
  "print_uncall_files filename s =
     (if filename \<noteq> None then nasl_perror LEXIC_AUX (UnusedIncludeFile filename) s else s)"

text \<open>
  The scan of one call's argument list in \<open>nasl_lint_def\<close>: the arguments hang on
  \<open>link[1]\<close>; the result is the first argument name met twice. The loop stops at the null
  pointer only.
\<close>

fun check_params :: "tree_cell \<Rightarrow> string list \<Rightarrow> string option" where
  "check_params NULL_CELL func_params = None"
| "check_params (Cell t ln sv l0 l1 l2 l3) func_params =
     (case sv of
        None \<Rightarrow> check_params l1 func_params
      | Some a \<Rightarrow>
          if g_slist_find_custom func_params sv list_cmp = None
          then check_params l1 (a # func_params)
          else Some a)"

text \<open>The block of \<open>nasl_lint_def\<close> for a call node, before the \<open>switch\<close>.\<close>

definition def_fun_call ::
  "env \<Rightarrow> lexptr \<Rightarrow> int \<Rightarrow> string option \<Rightarrow> int \<Rightarrow> tree_cell \<Rightarrow> string option \<Rightarrow>
   lint_state \<Rightarrow> tree_cell \<times> lint_state" where
  "def_fun_call e p line sv lint_mode args err_fname s =
     (let s1 = (if get_func_ref_by_name e p s sv then s
                else s\<lparr>func_fnames_tab := AList.update sv err_fname (func_fnames_tab s)\<rparr>);
          finfo = \<lparr>func_name = sv, caller_func = current_fun_def s1,
                   caller_file = (if err_fname \<noteq> None then err_fname else nasl_name s1)\<rparr>;
          s2 = s1\<lparr>def_func_tree := finfo # def_func_tree s1\<rparr>
      in if lint_mode = 1
         then (case check_params args [] of
                 Some a \<Rightarrow>
                   (NULL_CELL,
                    s2\<lparr>diags := diags s2 @
                         [Diag (DuplicateCallParameter a (func_name finfo)) line (caller_file finfo)]\<rparr>)
               | None \<Rightarrow> (FAKE_CELL, s2))
         else (FAKE_CELL, s2))"

text \<open>
  The loop \<open>for (i = 0; i < 4; i++)\<close> that ends every pass is a function of its own over the
  list of the links still to visit: a link that is neither null nor \<open>FAKE_CELL\<close> is visited,
  a null result leaves the loop at once, and the last result is returned. The weight
  of a tree bounds the recursion.
\<close>

fun tree_weight :: "tree_cell \<Rightarrow> nat" where
  "tree_weight (Cell t ln sv l0 l1 l2 l3) =
     5 + tree_weight l0 + tree_weight l1 + tree_weight l2 + tree_weight l3"
| "tree_weight _ = 0"

text \<open>The case \<open>NODE_FUN_DEF\<close> of \<open>nasl_lint_def\<close> in lint mode 1, up to the fall through.\<close>

definition def_fun_def :: "env \<Rightarrow> lexptr \<Rightarrow> string option \<Rightarrow> int \<Rightarrow> lint_state \<Rightarrow> lint_state" where
  "def_fun_def e p sv lint_mode s =
     (let sa = snd (decl_nasl_func p sv lint_mode s);
          sb = sa\<lparr>current_fun_def := sv\<rparr>
      in sb\<lparr>include_files := AList.update (nasl_get_filename e sv sb) ''NO'' (include_files sb)\<rparr>)"

function (sequential) nasl_lint_def ::
  "env \<Rightarrow> lexptr \<Rightarrow> tree_cell \<Rightarrow> int \<Rightarrow> string option \<Rightarrow> lint_state \<Rightarrow> tree_cell \<times> lint_state"
and nasl_lint_def_links ::
  "env \<Rightarrow> lexptr \<Rightarrow> tree_cell list \<Rightarrow> int \<Rightarrow> string option \<Rightarrow> tree_cell \<Rightarrow> lint_state \<Rightarrow>
   tree_cell \<times> lint_state"
where
  "nasl_lint_def e p (Cell t ln sv l0 l1 l2 l3) lint_mode err_fname s =
     (case (if t = NODE_FUN_CALL then def_fun_call e p ln sv lint_mode l0 err_fname s
            else (FAKE_CELL, s)) of
        (c, s1) \<Rightarrow>
          if c = NULL_CELL then (NULL_CELL, s1)
          else if t = NODE_FUN_DEF \<and> lint_mode = 0 then decl_nasl_func p sv lint_mode s1
          else if t = NODE_FUN_DEF \<and> g_slist_find_custom (called_funcs s1) sv list_cmp = None
            then (FAKE_CELL, s1)
          else if t = NODE_FUN_DEF
            then (let s2 = def_fun_def e p sv lint_mode s1;
                      tmp_filename = nasl_get_filename e None s2;
                      incname = nasl_get_filename e sv s2
                  in case nasl_lint_def_links e p [l0, l1, l2, l3] lint_mode incname FAKE_CELL s2 of
                       (r, s3) \<Rightarrow>
                         if r = NULL_CELL then (NULL_CELL, s3)
                         else (r, (case tmp_filename of
                                     Some f \<Rightarrow> nasl_set_filename f s3
                                   | None \<Rightarrow> s3)))
          else nasl_lint_def_links e p [l0, l1, l2, l3] lint_mode err_fname FAKE_CELL s1)"
| "nasl_lint_def_links e p [] lint_mode err_fname ret s = (ret, s)"
| "nasl_lint_def_links e p (l # ls) lint_mode err_fname ret s =
     (if l \<noteq> NULL_CELL \<and> l \<noteq> FAKE_CELL
      then (case nasl_lint_def e p l lint_mode err_fname s of
              (r, s') \<Rightarrow>
                if r = NULL_CELL then (NULL_CELL, s')
                else nasl_lint_def_links e p ls lint_mode err_fname r s')
      else nasl_lint_def_links e p ls lint_mode err_fname ret s)"
  by pat_completeness auto

termination
  by (relation "measure (\<lambda>x. case x of
         Inl (e, p, t, m, f, s) \<Rightarrow> tree_weight t
       | Inr (e, p, ls, m, f, r, s) \<Rightarrow> sum_list (map (\<lambda>l. Suc (tree_weight l)) ls))") auto

text \<open>The marking of an include file as used, and the arming of the flag for \<open>defined_func\<close>.\<close>

definition call_mark_used :: "env \<Rightarrow> string option \<Rightarrow> lint_state \<Rightarrow> lint_state" where
  "call_mark_used e sv s =
     (let s1 = (if sv \<noteq> None \<and> map_of (include_files s) (nasl_get_filename e sv s) \<noteq> None
                then s\<lparr>include_files :=
                        AList.update (nasl_get_filename e sv s) ''YES'' (include_files s)\<rparr>
                else s)
      in if sv = Some ''defined_func'' then s1\<lparr>defined_flag := 1\<rparr> else s1)"

text \<open>
  The case \<open>NODE_FUN_CALL\<close> of \<open>nasl_lint_call\<close>, up to the fall through; first what it
  does for an unresolved name before the search: the file recorded for the name becomes
  the current file, the line of the call the line of the context.
\<close>

definition call_set_position :: "lexptr \<Rightarrow> int \<Rightarrow> string option \<Rightarrow> lint_state \<Rightarrow> lint_state" where
  "call_set_position p line sv s =
     (let s1 = (case map_of (func_fnames_tab s) sv of
                  Some (Some incname) \<Rightarrow> nasl_set_filename incname s
                | _ \<Rightarrow> s)
      in ctxt_update p (\<lambda>c. c\<lparr>line_nb := line\<rparr>) s1)"

definition call_fun_call ::
  "env \<Rightarrow> lexptr \<Rightarrow> int \<Rightarrow> string option \<Rightarrow> lint_state \<Rightarrow> (tree_cell \<times> lint_state) option" where
  "call_fun_call e p line sv s =
     (if get_func_ref_by_name e p s sv then Some (FAKE_CELL, call_mark_used e sv s)
      else
        (let s2 = call_set_position p line sv s
         in case g_slist_find_custom (def_func_tree s2) sv list_cmp1 of
              None \<Rightarrow> Some (FAKE_CELL, call_mark_used e sv s2)
            | Some called_f_aux \<Rightarrow>
                (case reverse_search (nasl_name s2) (def_func_tree s2) called_f_aux of
                   None \<Rightarrow> None
                 | Some r \<Rightarrow>
                     if r \<noteq> 0 then Some (NULL_CELL, nasl_perror p (UndefinedFunction sv) s2)
                     else Some (FAKE_CELL, call_mark_used e sv s2))))"

text \<open>The cases \<open>CONST_DATA\<close> and \<open>CONST_STR\<close> of \<open>nasl_lint_call\<close>.\<close>

definition call_const :: "lexptr \<Rightarrow> string option \<Rightarrow> lint_state \<Rightarrow> lint_state" where
  "call_const p sv s =
     (if sv \<noteq> None \<and> defined_flag s = 1
      then (snd (decl_nasl_func p sv 1 s))\<lparr>defined_flag := 0\<rparr>
      else s)"

function (sequential) nasl_lint_call ::
  "env \<Rightarrow> lexptr \<Rightarrow> tree_cell \<Rightarrow> lint_state \<Rightarrow> (tree_cell \<times> lint_state) option"
and nasl_lint_call_links ::
  "env \<Rightarrow> lexptr \<Rightarrow> tree_cell list \<Rightarrow> tree_cell \<Rightarrow> lint_state \<Rightarrow> (tree_cell \<times> lint_state) option"
where
  "nasl_lint_call e p (Cell t ln sv l0 l1 l2 l3) s =
     (if t = NODE_FUN_DEF \<and> g_slist_find_custom (called_funcs s) sv list_cmp = None
        then Some (FAKE_CELL, s)
      else if t = CONST_DATA \<or> t = CONST_STR then Some (FAKE_CELL, call_const p sv s)
      else
        (case (if t = NODE_FUN_CALL then call_fun_call e p ln sv s else Some (FAKE_CELL, s)) of
           None \<Rightarrow> None
         | Some (c, s1) \<Rightarrow>
             if c = NULL_CELL then Some (NULL_CELL, s1)
             else nasl_lint_call_links e p [l0, l1, l2, l3] FAKE_CELL s1))"
| "nasl_lint_call_links e p [] ret s = Some (ret, s)"
| "nasl_lint_call_links e p (l # ls) ret s =
     (if l \<noteq> NULL_CELL \<and> l \<noteq> FAKE_CELL
      then (case nasl_lint_call e p l s of
              None \<Rightarrow> None
            | Some (r, s') \<Rightarrow>
                if r = NULL_CELL then Some (NULL_CELL, s')
                else nasl_lint_call_links e p ls r s')
      else nasl_lint_call_links e p ls ret s)"
  by pat_completeness auto

termination
  by (relation "measure (\<lambda>x. case x of
         Inl (e, p, t, s) \<Rightarrow> tree_weight t
       | Inr (e, p, ls, r, s) \<Rightarrow> sum_list (map (\<lambda>l. Suc (tree_weight l)) ls))") auto

text \<open>
  What \<open>nasl_lint_defvar\<close> does on one node before it descends: the reset of the two
  declaration flags at a node that is no declaration, then the chain of tests.
\<close>

definition defvar_reset :: "node_type \<Rightarrow> lint_state \<Rightarrow> lint_state" where
  "defvar_reset t s =
     (if (defined_fn_mode s = 1 \<or> def_glob_var s \<noteq> 0) \<and> t \<noteq> NODE_DECL
      then s\<lparr>defined_fn_mode := 0, def_glob_var := 0\<rparr> else s)"

definition defvar_chain ::
  "lexptr \<Rightarrow> node_type \<Rightarrow> int \<Rightarrow> string option \<Rightarrow> lint_state \<Rightarrow> tree_cell \<times> lint_state" where
  "defvar_chain p t ln sv s =
     (if (t = NODE_AFF \<or> t = EXPR_NOT \<or> t = EXPR_INCR \<or> t = NODE_PLUS_EQ)
         \<and> defined_var_mode s = 0
        then (FAKE_CELL, s\<lparr>defined_var_mode := 1\<rparr>)
      else if (t = NODE_FUN_DEF \<or> t = NODE_LOCAL) \<and> defined_fn_mode s = 0
        then (FAKE_CELL, s\<lparr>defined_fn_mode := 1\<rparr>)
      else if t = NODE_GLOBAL then (FAKE_CELL, s\<lparr>def_glob_var := 1\<rparr>)
      else if (t = NODE_VAR \<or> t = NODE_ARRAY_EL)
              \<and> (defined_var_mode s = 1 \<or> defined_fn_mode s = 1)
        then (case sv of
                None \<Rightarrow> (FAKE_CELL, s)
              | Some v \<Rightarrow>
                  (FAKE_CELL,
                   (if g_slist_find_custom (local_var_list s) sv list_cmp = None
                    then s\<lparr>defined_var := v # defined_var s\<rparr> else s)\<lparr>defined_var_mode := 0\<rparr>))
      else if t = NODE_DECL \<and> sv \<noteq> None
        then (let s1 = (if defined_fn_mode s = 1
                        then s\<lparr>local_var_list := the sv # local_var_list s\<rparr> else s)
              in (FAKE_CELL,
                  if def_glob_var s1 = 1 then s1\<lparr>defined_var := the sv # defined_var s1\<rparr> else s1))
      else if t = NODE_FOREACH
        then (case sv of
                None \<Rightarrow> (FAKE_CELL, s)
              | Some v \<Rightarrow> (FAKE_CELL, s\<lparr>defined_var := v # defined_var s\<rparr>))
      else if t = NODE_VAR \<and> defined_var_mode s = 0
        then (if g_slist_find_custom (defined_var s) sv list_cmp = None
                 \<and> g_slist_find_custom (local_var_list s) sv list_cmp = None
              then (NULL_CELL,
                    nasl_perror p (UndeclaredVariable sv)
                      (ctxt_update p (\<lambda>c. c\<lparr>line_nb := ln\<rparr>) s))
              else (FAKE_CELL, s))
      else (FAKE_CELL, s))"

definition defvar_node ::
  "lexptr \<Rightarrow> node_type \<Rightarrow> int \<Rightarrow> string option \<Rightarrow> lint_state \<Rightarrow> tree_cell \<times> lint_state" where
  "defvar_node p t ln sv s = defvar_chain p t ln sv (defvar_reset t s)"

function (sequential) nasl_lint_defvar ::
  "lexptr \<Rightarrow> tree_cell \<Rightarrow> lint_state \<Rightarrow> tree_cell \<times> lint_state"
and nasl_lint_defvar_links ::
  "lexptr \<Rightarrow> tree_cell list \<Rightarrow> tree_cell \<Rightarrow> lint_state \<Rightarrow> tree_cell \<times> lint_state"
where
  "nasl_lint_defvar p (Cell t ln sv l0 l1 l2 l3) s =
     (if t = NODE_FUN_DEF \<and> g_slist_find_custom (called_funcs s) sv list_cmp = None
        then (FAKE_CELL, s)
      else
        (case defvar_node p t ln sv s of
           (c, s1) \<Rightarrow>
             if c = NULL_CELL then (NULL_CELL, s1)
             else (case nasl_lint_defvar_links p [l0, l1, l2, l3] FAKE_CELL s1 of
                     (r, s2) \<Rightarrow>
                       if r = NULL_CELL then (NULL_CELL, s2)
                       else (r, if t = NODE_FUN_DEF then s2\<lparr>local_var_list := []\<rparr> else s2))))"
| "nasl_lint_defvar_links p [] ret s = (ret, s)"
| "nasl_lint_defvar_links p (l # ls) ret s =
     (if l \<noteq> NULL_CELL \<and> l \<noteq> FAKE_CELL
      then (case nasl_lint_defvar p l s of
              (r, s') \<Rightarrow>
                if r = NULL_CELL then (NULL_CELL, s')
                else nasl_lint_defvar_links p ls r s')
      else nasl_lint_defvar_links p ls ret s)"
  by pat_completeness auto

termination
  by (relation "measure (\<lambda>x. case x of
         Inl (p, t, s) \<Rightarrow> tree_weight t
       | Inr (p, ls, r, s) \<Rightarrow> sum_list (map (\<lambda>l. Suc (tree_weight l)) ls))") auto

text \<open>What \<open>make_call_func_list\<close> does on one node before it descends.\<close>

definition call_list_node ::
  "env \<Rightarrow> lexptr \<Rightarrow> node_type \<Rightarrow> string option \<Rightarrow> lint_state \<Rightarrow> lint_state" where
  "call_list_node e p t sv s =
     (if t = NODE_FUN_CALL \<and> sv \<noteq> None \<and> \<not> get_func_ref_by_name e p s sv
      then s\<lparr>called_funcs := the sv # called_funcs s\<rparr> else s)"

function (sequential) make_call_func_list ::
  "env \<Rightarrow> lexptr \<Rightarrow> tree_cell \<Rightarrow> lint_state \<Rightarrow> tree_cell \<times> lint_state"
and make_call_func_list_links ::
  "env \<Rightarrow> lexptr \<Rightarrow> tree_cell list \<Rightarrow> tree_cell \<Rightarrow> lint_state \<Rightarrow> tree_cell \<times> lint_state"
where
  "make_call_func_list e p (Cell t ln sv l0 l1 l2 l3) s =
     make_call_func_list_links e p [l0, l1, l2, l3] FAKE_CELL (call_list_node e p t sv s)"
| "make_call_func_list_links e p [] ret s = (ret, s)"
| "make_call_func_list_links e p (l # ls) ret s =
     (if l \<noteq> NULL_CELL \<and> l \<noteq> FAKE_CELL
      then (case make_call_func_list e p l s of
              (r, s') \<Rightarrow>
                if r = NULL_CELL then (NULL_CELL, s')
                else make_call_func_list_links e p ls r s')
      else make_call_func_list_links e p ls ret s)"
  by pat_completeness auto

termination
  by (relation "measure (\<lambda>x. case x of
         Inl (e, p, t, s) \<Rightarrow> tree_weight t
       | Inr (e, p, ls, r, s) \<Rightarrow> sum_list (map (\<lambda>l. Suc (tree_weight l)) ls))") auto

text \<open>
  The label \<open>fail\<close> of \<open>nasl_lint\<close>: the tables are freed and their pointers set to null,
  the auxiliary context is freed.
\<close>

definition lint_fail :: "tree_cell \<Rightarrow> lint_state \<Rightarrow> tree_cell \<times> lint_state" where
  "lint_fail ret s =
     (ret, s\<lparr>called_funcs := [], def_func_tree := [], include_files := [],
             func_fnames_tab := [], unusedfiles := [], lexic_aux := init_empty_lex_ctxt\<rparr>)"

text \<open>\<open>x.str_val\<close> of the root, which \<open>nasl_lint\<close> reads first.\<close>

fun str_val :: "tree_cell \<Rightarrow> string option" where
  "str_val (Cell t ln sv l0 l1 l2 l3) = sv"

text \<open>
  The stages of \<open>nasl_lint\<close> between the passes: the initialisation of the tables, of
  \<open>nasl_name\<close> and of the auxiliary context, and the check of the included files.
\<close>

definition lint_init :: "env \<Rightarrow> tree_cell \<Rightarrow> lint_state \<Rightarrow> lint_state" where
  "lint_init e st s =
     (let s0 = s\<lparr>include_files := [], func_fnames_tab := [], unusedfiles := [],
                 called_funcs := [], def_func_tree := []\<rparr>;
          s1 = s0\<lparr>nasl_name := nasl_get_filename e (str_val st) s0\<rparr>
      in s1\<lparr>lexic_aux := init_empty_lex_ctxt\<rparr>)"

definition lint_unused_files :: "lint_state \<Rightarrow> lint_state" where
  "lint_unused_files s =
     (let s1 = s\<lparr>unusedfiles := fold check_called_files (include_files s) (unusedfiles s)\<rparr>
      in fold print_uncall_files (unusedfiles s1) s1)"

definition nasl_lint :: "env \<Rightarrow> tree_cell \<Rightarrow> lint_state \<Rightarrow> (tree_cell \<times> lint_state) option" where
  "nasl_lint e st s =
     (let s3 = snd (make_call_func_list e LEXIC_AUX st (lint_init e st s))
      in case nasl_lint_def e LEXIC_AUX st 1 None s3 of (ret1, s4) \<Rightarrow>
         if ret1 = NULL_CELL then Some (lint_fail ret1 s4) else
         (case nasl_lint_call e LEXIC_AUX st s4 of
            None \<Rightarrow> None
          | Some (ret2, s5) \<Rightarrow>
         if ret2 = NULL_CELL then Some (lint_fail ret2 s5) else
         (let s7 = lint_unused_files s5
          in if length (unusedfiles s7) > 0 then Some (lint_fail NULL_CELL s7) else
         (case nasl_lint_def e LEXIC st 0 None s7 of (ret3, s8) \<Rightarrow>
         if ret3 = NULL_CELL then Some (lint_fail ret3 s8) else
         (let s9 = add_predef_varname e (s8\<lparr>defined_var := []\<rparr>)
          in case nasl_lint_defvar LEXIC_AUX st s9 of (ret4, s10) \<Rightarrow>
             Some (lint_fail ret4 (s10\<lparr>defined_var := []\<rparr>)))))))"

subsection \<open>The loop over the links, once for all passes\<close>

text \<open>
  The four loops differ in the pass they call only. \<open>links\<close> is the loop with the pass as
  a parameter, \<open>links_opt\<close> the same for a pass that may not return.
\<close>

fun links ::
  "(tree_cell \<Rightarrow> 's \<Rightarrow> tree_cell \<times> 's) \<Rightarrow> tree_cell list \<Rightarrow> tree_cell \<times> 's \<Rightarrow> tree_cell \<times> 's" where
  "links f [] rs = rs"
| "links f (l # ls) rs =
     (if l \<noteq> NULL_CELL \<and> l \<noteq> FAKE_CELL
      then (case f l (snd rs) of
              (r, s') \<Rightarrow> if r = NULL_CELL then (NULL_CELL, s') else links f ls (r, s'))
      else links f ls rs)"

fun links_opt ::
  "(tree_cell \<Rightarrow> 's \<Rightarrow> (tree_cell \<times> 's) option) \<Rightarrow> tree_cell list \<Rightarrow> tree_cell \<times> 's \<Rightarrow>
   (tree_cell \<times> 's) option" where
  "links_opt f [] rs = Some rs"
| "links_opt f (l # ls) rs =
     (if l \<noteq> NULL_CELL \<and> l \<noteq> FAKE_CELL
      then (case f l (snd rs) of
              None \<Rightarrow> None
            | Some (r, s') \<Rightarrow>
                if r = NULL_CELL then Some (NULL_CELL, s') else links_opt f ls (r, s'))
      else links_opt f ls rs)"

subsection \<open>Results of a pass\<close>

text \<open>
  A pass returns the null pointer when it fails and \<open>FAKE_CELL\<close> otherwise. \<open>post F I\<close>
  holds of a result whose state satisfies \<open>F\<close> after a failure and \<open>I\<close> after a success;
  \<open>post_opt\<close> is the same for a pass that may not return.
\<close>

definition post :: "('s \<Rightarrow> bool) \<Rightarrow> ('s \<Rightarrow> bool) \<Rightarrow> tree_cell \<times> 's \<Rightarrow> bool" where
  "post F I rs = (if fst rs = NULL_CELL then F (snd rs) else fst rs = FAKE_CELL \<and> I (snd rs))"

definition post_opt :: "('s \<Rightarrow> bool) \<Rightarrow> ('s \<Rightarrow> bool) \<Rightarrow> (tree_cell \<times> 's) option \<Rightarrow> bool" where
  "post_opt F I x = (case x of None \<Rightarrow> True | Some rs \<Rightarrow> post F I rs)"

subsection \<open>Reading diagnostics\<close>

fun msg_of :: "diagnostic \<Rightarrow> message" where
  "msg_of (Diag m l f) = m"

fun is_UndefinedFunction :: "message \<Rightarrow> bool" where
  "is_UndefinedFunction (UndefinedFunction n) = True"
| "is_UndefinedFunction _ = False"

text \<open>The state holds the diagnostics \<open>ds\<close> and one more, whose message satisfies \<open>K\<close>.\<close>

definition one_more :: "(message \<Rightarrow> bool) \<Rightarrow> diagnostic list \<Rightarrow> lint_state \<Rightarrow> bool" where
  "one_more K ds s = (\<exists>d. diags s = ds @ [d] \<and> K (msg_of d))"

text \<open>
  From \<open>s\<close> to \<open>s'\<close> diagnostics were written whose messages all satisfy \<open>K\<close>, and none
  were removed.
\<close>

definition emits :: "(message \<Rightarrow> bool) \<Rightarrow> lint_state \<Rightarrow> lint_state \<Rightarrow> bool" where
  "emits K s s' = (\<exists>ds. diags s' = diags s @ ds \<and> (\<forall>d\<in>set ds. K (msg_of d)))"

subsection \<open>Scripts\<close>

text \<open>
  The state of a process that has not linted anything yet, with \<open>t.nasl\<close> as the current
  file, and the shapes the parser gives to a list of instructions, a call and a function
  definition.
\<close>

definition state0 :: lint_state where
  "state0 = \<lparr>lexic = \<lparr>ctx_functions = [], line_nb = 0\<rparr>,
             lexic_aux = \<lparr>ctx_functions = [], line_nb = 0\<rparr>,
             include_files = [], func_fnames_tab = [], unusedfiles = [], called_funcs = [],
             def_func_tree = [], defined_var = [],
             nasl_name = None, current_fun_def = None, defined_flag = 0, defined_fn_mode = 0,
             defined_var_mode = 0, def_glob_var = 0, local_var_list = [],
             debug_filename = Some ''t.nasl'', diags = []\<rparr>"

definition instr_l :: "tree_cell \<Rightarrow> tree_cell \<Rightarrow> tree_cell" where
  "instr_l a b = Cell NODE_INSTR_L 0 None a b NULL_CELL NULL_CELL"

definition fun_call :: "int \<Rightarrow> string \<Rightarrow> tree_cell \<Rightarrow> tree_cell" where
  "fun_call ln f args = Cell NODE_FUN_CALL ln (Some f) args NULL_CELL NULL_CELL NULL_CELL"

definition fun_def :: "int \<Rightarrow> string \<Rightarrow> tree_cell \<Rightarrow> tree_cell \<Rightarrow> tree_cell" where
  "fun_def ln f args body = Cell NODE_FUN_DEF ln (Some f) args body NULL_CELL NULL_CELL"

text \<open>
  An environment with two builtin functions and no file recorded for any function; the
  script \<open>u();\<close>, whose \<open>u\<close> is defined nowhere; and the fresh process whose current file is
  the include file \<open>lib.inc\<close>.
\<close>

definition env_plain :: env where
  "env_plain = \<lparr>builtin = [''display'', ''defined_func''], functions_filenames = [], nasl_library = []\<rparr>"

definition script_undefined :: tree_cell where
  "script_undefined = instr_l (fun_call 1 ''u'' NULL_CELL) NULL_CELL"

definition state_inc :: lint_state where
  "state_inc = state0\<lparr>debug_filename := Some ''lib.inc''\<rparr>"

subsection \<open>A script whose call sites form a cycle\<close>

text \<open>
  The script \<open>t.nasl\<close> holds, from its include file \<open>x.inc\<close>,
  \<open>function a() { b(); u(); }\<close> and \<open>function b() { a(); }\<close>; \<open>u\<close> is defined nowhere.
  The three records are the ones the definition pass leaves for it.
\<close>

definition site_ab :: func_info where
  "site_ab = \<lparr>func_name = Some ''a'', caller_func = Some ''b'', caller_file = Some ''x.inc''\<rparr>"
definition site_ba :: func_info where
  "site_ba = \<lparr>func_name = Some ''b'', caller_func = Some ''a'', caller_file = Some ''x.inc''\<rparr>"
definition site_ua :: func_info where
  "site_ua = \<lparr>func_name = Some ''u'', caller_func = Some ''a'', caller_file = Some ''x.inc''\<rparr>"

definition script_cycle :: tree_cell where
  "script_cycle =
     instr_l (fun_def 1 ''a'' NULL_CELL
                (instr_l (fun_call 2 ''b'' NULL_CELL) (instr_l (fun_call 3 ''u'' NULL_CELL) NULL_CELL)))
       (instr_l (fun_def 5 ''b'' NULL_CELL (instr_l (fun_call 6 ''a'' NULL_CELL) NULL_CELL))
          NULL_CELL)"

definition env_cycle :: env where
  "env_cycle = \<lparr>builtin = [], functions_filenames = [(''a'', ''x.inc''), (''b'', ''x.inc'')],
                 nasl_library = []\<rparr>"

section \<open>Properties\<close>

subsection \<open>The loops of the passes are the one loop\<close>

lemma make_call_func_list_links_eq:
  "make_call_func_list_links e p ls r s = links (make_call_func_list e p) ls (r, s)"
  by (induction ls arbitrary: r s) (auto split: prod.split)

lemma nasl_lint_def_links_eq:
  "nasl_lint_def_links e p ls m f r s = links (\<lambda>l. nasl_lint_def e p l m f) ls (r, s)"
  by (induction ls arbitrary: r s) (auto split: prod.split)

lemma nasl_lint_call_links_eq:
  "nasl_lint_call_links e p ls r s = links_opt (nasl_lint_call e p) ls (r, s)"
  by (induction ls arbitrary: r s) (auto split: prod.split option.split)

lemma nasl_lint_defvar_links_eq:
  "nasl_lint_defvar_links p ls r s = links (nasl_lint_defvar p) ls (r, s)"
  by (induction ls arbitrary: r s) (auto split: prod.split)

subsection \<open>Rules for the loop\<close>

lemma post_simps [simp]:
  "post F I (NULL_CELL, s) = F s"
  "post F I (FAKE_CELL, s) = I s"
  by (simp_all add: post_def)

lemma post_opt_simps [simp]:
  "post_opt F I None = True"
  "post_opt F I (Some rs) = post F I rs"
  by (simp_all add: post_opt_def)

lemma links_rule:
  assumes "\<And>l s. l \<in> set ls \<Longrightarrow> l \<noteq> NULL_CELL \<Longrightarrow> l \<noteq> FAKE_CELL \<Longrightarrow> I s \<Longrightarrow> post F I (f l s)"
    and "I s"
  shows "post F I (links f ls (FAKE_CELL, s))"
  using assms
proof (induction ls arbitrary: s)
  case Nil
  then show ?case by simp
next
  case (Cons l ls)
  show ?case
  proof (cases "l \<noteq> NULL_CELL \<and> l \<noteq> FAKE_CELL")
    case False
    then have "links f (l # ls) (FAKE_CELL, s) = links f ls (FAKE_CELL, s)" by auto
    with Cons show ?thesis by simp
  next
    case True
    obtain r s' where fl: "f l s = (r, s')" by (cases "f l s")
    from Cons.prems(1)[of l s] True Cons.prems(2) fl have p: "post F I (r, s')" by simp
    show ?thesis
    proof (cases "r = NULL_CELL")
      case True
      with p fl \<open>l \<noteq> NULL_CELL \<and> l \<noteq> FAKE_CELL\<close> show ?thesis by (simp add: post_def)
    next
      case False
      with p have r: "r = FAKE_CELL" and I: "I s'" by (simp_all add: post_def)
      have "post F I (links f ls (FAKE_CELL, s'))"
        by (rule Cons.IH) (use Cons.prems(1) I in auto)
      with fl True r show ?thesis by simp
    qed
  qed
qed

lemma links_opt_rule:
  assumes "\<And>l s. l \<in> set ls \<Longrightarrow> l \<noteq> NULL_CELL \<Longrightarrow> l \<noteq> FAKE_CELL \<Longrightarrow> I s \<Longrightarrow> post_opt F I (f l s)"
    and "I s"
  shows "post_opt F I (links_opt f ls (FAKE_CELL, s))"
  using assms
proof (induction ls arbitrary: s)
  case Nil
  then show ?case by simp
next
  case (Cons l ls)
  show ?case
  proof (cases "l \<noteq> NULL_CELL \<and> l \<noteq> FAKE_CELL")
    case False
    then have "links_opt f (l # ls) (FAKE_CELL, s) = links_opt f ls (FAKE_CELL, s)" by auto
    with Cons show ?thesis by simp
  next
    case True
    show ?thesis
    proof (cases "f l s")
      case None
      with True show ?thesis by simp
    next
      case (Some rs)
      obtain r s' where rs: "rs = (r, s')" by (cases rs)
      from Cons.prems(1)[of l s] True Cons.prems(2) Some rs have p: "post F I (r, s')" by simp
      show ?thesis
      proof (cases "r = NULL_CELL")
        case True
        with p Some rs \<open>l \<noteq> NULL_CELL \<and> l \<noteq> FAKE_CELL\<close> show ?thesis by (simp add: post_def)
      next
        case False
        with p have r: "r = FAKE_CELL" and I: "I s'" by (simp_all add: post_def)
        have "post_opt F I (links_opt f ls (FAKE_CELL, s'))"
          by (rule Cons.IH) (use Cons.prems(1) I in auto)
        with Some rs True r show ?thesis by simp
      qed
    qed
  qed
qed

subsection \<open>Rules for the passes\<close>

text \<open>
  What the steps of a pass on single nodes keep, the pass keeps on a whole tree; what they
  establish when they fail, the pass establishes when it fails.
\<close>

lemma nasl_lint_call_rule:
  assumes fc: "\<And>ln sv s. I s \<Longrightarrow> post_opt F I (call_fun_call e p ln sv s)"
    and cc: "\<And>sv s. I s \<Longrightarrow> I (call_const p sv s)"
  shows "st \<noteq> NULL_CELL \<Longrightarrow> st \<noteq> FAKE_CELL \<Longrightarrow> I s \<Longrightarrow> post_opt F I (nasl_lint_call e p st s)"
proof (induction st arbitrary: s)
  case (Cell t ln sv l0 l1 l2 l3)
  note I = \<open>I s\<close>
  have kids: "post_opt F I (links_opt (nasl_lint_call e p) [l0, l1, l2, l3] (FAKE_CELL, s1))"
    if "I s1" for s1
    by (rule links_opt_rule[where I = I, OF _ that]) (use Cell.IH in auto)
  show ?case
  proof (cases "t = NODE_FUN_DEF \<and> g_slist_find_custom (called_funcs s) sv list_cmp = None")
    case True
    with I show ?thesis by simp
  next
    case skip: False
    show ?thesis
    proof (cases "t = CONST_DATA \<or> t = CONST_STR")
      case True
      with skip cc[OF I] show ?thesis by auto
    next
      case const: False
      show ?thesis
      proof (cases "t = NODE_FUN_CALL")
        case True
        show ?thesis
        proof (cases "call_fun_call e p ln sv s")
          case None
          with True skip const show ?thesis by simp
        next
          case (Some cs)
          obtain c s1 where cs: "cs = (c, s1)" by (cases cs)
          from fc[OF I, of ln sv] Some cs have p: "post F I (c, s1)" by simp
          show ?thesis
          proof (cases "c = NULL_CELL")
            case True
            with p Some cs \<open>t = NODE_FUN_CALL\<close> show ?thesis by simp
          next
            case False
            with p have "I s1" by (simp add: post_def)
            from kids[OF this] False Some cs \<open>t = NODE_FUN_CALL\<close> show ?thesis
              by (simp add: nasl_lint_call_links_eq del: links_opt.simps)
          qed
        qed
      next
        case False
        with skip const kids[OF I] I show ?thesis
          by (simp add: nasl_lint_call_links_eq del: links_opt.simps)
      qed
    qed
  qed
qed simp_all

lemma nasl_lint_defvar_rule:
  assumes nd: "\<And>t ln sv s. I s \<Longrightarrow> post F I (defvar_node p t ln sv s)"
    and lv: "\<And>s. I s \<Longrightarrow> I (s\<lparr>local_var_list := []\<rparr>)"
  shows "st \<noteq> NULL_CELL \<Longrightarrow> st \<noteq> FAKE_CELL \<Longrightarrow> I s \<Longrightarrow> post F I (nasl_lint_defvar p st s)"
proof (induction st arbitrary: s)
  case (Cell t ln sv l0 l1 l2 l3)
  note I = \<open>I s\<close>
  have kids: "post F I (links (nasl_lint_defvar p) [l0, l1, l2, l3] (FAKE_CELL, s1))"
    if "I s1" for s1
    by (rule links_rule[where I = I, OF _ that]) (use Cell.IH in auto)
  show ?case
  proof (cases "t = NODE_FUN_DEF \<and> g_slist_find_custom (called_funcs s) sv list_cmp = None")
    case True
    with I show ?thesis by simp
  next
    case skip: False
    obtain c s1 where cs: "defvar_node p t ln sv s = (c, s1)" by (cases "defvar_node p t ln sv s")
    from nd[OF I, of t ln sv] cs have p: "post F I (c, s1)" by simp
    show ?thesis
    proof (cases "c = NULL_CELL")
      case True
      with p cs skip I show ?thesis by simp
    next
      case False
      with p have "I s1" by (simp add: post_def)
      from kids[OF this] obtain r s2 where
        k: "links (nasl_lint_defvar p) [l0, l1, l2, l3] (FAKE_CELL, s1) = (r, s2)"
        and pk: "post F I (r, s2)" by (cases "links (nasl_lint_defvar p) [l0, l1, l2, l3] (FAKE_CELL, s1)") auto
      show ?thesis
      proof (cases "r = NULL_CELL")
        case True
        with pk k cs skip \<open>c \<noteq> NULL_CELL\<close> I show ?thesis
          by (simp add: nasl_lint_defvar_links_eq del: links.simps)
      next
        case False
        with pk have "r = FAKE_CELL" "I s2" by (simp_all add: post_def)
        with lv[of s2] k cs skip \<open>c \<noteq> NULL_CELL\<close> I show ?thesis
          by (simp add: nasl_lint_defvar_links_eq del: links.simps)
      qed
    qed
  qed
qed simp_all

lemma make_call_func_list_rule:
  assumes nd: "\<And>t sv s. I s \<Longrightarrow> I (call_list_node e p t sv s)"
  shows "st \<noteq> NULL_CELL \<Longrightarrow> st \<noteq> FAKE_CELL \<Longrightarrow> I s \<Longrightarrow>
         post (\<lambda>_. False) I (make_call_func_list e p st s)"
proof (induction st arbitrary: s)
  case (Cell t ln sv l0 l1 l2 l3)
  have "post (\<lambda>_. False) I (links (make_call_func_list e p) [l0, l1, l2, l3]
          (FAKE_CELL, call_list_node e p t sv s))"
    by (rule links_rule[where I = I]) (use Cell.IH nd[OF \<open>I s\<close>] in auto)
  then show ?case by (simp add: make_call_func_list_links_eq del: links.simps)
qed simp_all

lemma nasl_lint_def_rule:
  assumes fc: "\<And>ln sv l0 err s. I s \<Longrightarrow> post F I (def_fun_call e p ln sv m l0 err s)"
    and dc: "\<And>sv s. I s \<Longrightarrow> m = 0 \<Longrightarrow> post F I (decl_nasl_func p sv m s)"
    and fd: "\<And>sv s. I s \<Longrightarrow> m \<noteq> 0 \<Longrightarrow> I (def_fun_def e p sv m s)"
    and sf: "\<And>s2 s3 f. I s2 \<Longrightarrow> I s3 \<Longrightarrow> nasl_get_filename e None s2 = Some f \<Longrightarrow>
               I (nasl_set_filename f s3)"
  shows "st \<noteq> NULL_CELL \<Longrightarrow> st \<noteq> FAKE_CELL \<Longrightarrow> I s \<Longrightarrow>
         post F I (nasl_lint_def e p st m err s)"
proof (induction st arbitrary: s err)
  case (Cell t ln sv l0 l1 l2 l3)
  note I = \<open>I s\<close>
  have kids: "post F I (links (\<lambda>l. nasl_lint_def e p l m err') [l0, l1, l2, l3] (FAKE_CELL, s1))"
    if "I s1" for s1 err'
    by (rule links_rule[where I = I, OF _ that]) (use Cell.IH in auto)
  obtain c s1 where cs: "(if t = NODE_FUN_CALL then def_fun_call e p ln sv m l0 err s
            else (FAKE_CELL, s)) = (c, s1)" by fastforce
  have p: "post F I (c, s1)"
    using fc[OF I, of ln sv l0 err] cs I by (auto split: if_splits)
  show ?case
  proof (cases "c = NULL_CELL")
    case True
    with p cs show ?thesis by simp
  next
    case c: False
    with p have I1: "I s1" by (simp add: post_def)
    show ?thesis
    proof (cases "t = NODE_FUN_DEF")
      case False
      with kids[OF I1, of err] cs c show ?thesis
        by (simp add: nasl_lint_def_links_eq del: links.simps)
    next
      case fd1: True
      show ?thesis
      proof (cases "m = 0")
        case True
        with dc[OF I1, of sv] cs c fd1 show ?thesis by simp
      next
        case m: False
        show ?thesis
        proof (cases "g_slist_find_custom (called_funcs s1) sv list_cmp = None")
          case True
          with cs c fd1 m I1 show ?thesis by simp
        next
          case called: False
          let ?s2 = "def_fun_def e p sv m s1"
          let ?err = "nasl_get_filename e sv ?s2"
          have I2: "I ?s2" by (rule fd[OF I1 m])
          from kids[OF I2, of ?err] obtain r s3 where
            k: "links (\<lambda>l. nasl_lint_def e p l m ?err) [l0, l1, l2, l3] (FAKE_CELL, ?s2) = (r, s3)"
            and pk: "post F I (r, s3)"
            by (cases "links (\<lambda>l. nasl_lint_def e p l m ?err) [l0, l1, l2, l3] (FAKE_CELL, ?s2)") auto
          show ?thesis
          proof (cases "r = NULL_CELL")
            case True
            with pk k cs c fd1 m called I1 show ?thesis
              by (simp add: nasl_lint_def_links_eq Let_def del: links.simps)
          next
            case False
            with pk have r: "r = FAKE_CELL" and I3: "I s3" by (simp_all add: post_def)
            have "I (case nasl_get_filename e None ?s2 of Some f \<Rightarrow> nasl_set_filename f s3 | None \<Rightarrow> s3)"
              using sf[OF I2 I3] I3 by (auto split: option.split)
            with r k cs c fd1 m called I1 show ?thesis
              by (simp add: nasl_lint_def_links_eq Let_def del: links.simps)
          qed
        qed
      qed
    qed
  qed
qed simp_all

subsection \<open>What each step keeps\<close>

text \<open>The fields of the state that the single steps of the passes leave as they are.\<close>

lemma ctxt_update_keeps [simp]:
  "include_files (ctxt_update p f s) = include_files s"
  "func_fnames_tab (ctxt_update p f s) = func_fnames_tab s"
  "unusedfiles (ctxt_update p f s) = unusedfiles s"
  "called_funcs (ctxt_update p f s) = called_funcs s"
  "def_func_tree (ctxt_update p f s) = def_func_tree s"
  "defined_var (ctxt_update p f s) = defined_var s"
  "nasl_name (ctxt_update p f s) = nasl_name s"
  "current_fun_def (ctxt_update p f s) = current_fun_def s"
  "defined_flag (ctxt_update p f s) = defined_flag s"
  "defined_fn_mode (ctxt_update p f s) = defined_fn_mode s"
  "defined_var_mode (ctxt_update p f s) = defined_var_mode s"
  "def_glob_var (ctxt_update p f s) = def_glob_var s"
  "local_var_list (ctxt_update p f s) = local_var_list s"
  "debug_filename (ctxt_update p f s) = debug_filename s"
  "diags (ctxt_update p f s) = diags s"
  by (simp_all add: ctxt_update_def split: lexptr.split)

lemma ctxt_update_other [simp]:
  "lexic (ctxt_update LEXIC_AUX f s) = lexic s"
  "lexic_aux (ctxt_update LEXIC f s) = lexic_aux s"
  "ctxt p (ctxt_update p f s) = f (ctxt p s)"
  by (simp_all add: ctxt_update_def ctxt_def split: lexptr.split)

lemma nasl_perror_keeps [simp]:
  "lexic (nasl_perror p m s) = lexic s"
  "lexic_aux (nasl_perror p m s) = lexic_aux s"
  "include_files (nasl_perror p m s) = include_files s"
  "func_fnames_tab (nasl_perror p m s) = func_fnames_tab s"
  "unusedfiles (nasl_perror p m s) = unusedfiles s"
  "called_funcs (nasl_perror p m s) = called_funcs s"
  "def_func_tree (nasl_perror p m s) = def_func_tree s"
  "defined_var (nasl_perror p m s) = defined_var s"
  "nasl_name (nasl_perror p m s) = nasl_name s"
  "current_fun_def (nasl_perror p m s) = current_fun_def s"
  "defined_flag (nasl_perror p m s) = defined_flag s"
  "defined_fn_mode (nasl_perror p m s) = defined_fn_mode s"
  "defined_var_mode (nasl_perror p m s) = defined_var_mode s"
  "def_glob_var (nasl_perror p m s) = def_glob_var s"
  "local_var_list (nasl_perror p m s) = local_var_list s"
  "debug_filename (nasl_perror p m s) = debug_filename s"
  by (simp_all add: nasl_perror_def)

lemma nasl_perror_diags [simp]:
  "diags (nasl_perror p m s) = diags s @ [Diag m (line_nb (ctxt p s)) (debug_filename s)]"
  "ctxt q (nasl_perror p m s) = ctxt q s"
  by (simp_all add: nasl_perror_def ctxt_def split: lexptr.split)

lemma nasl_set_filename_keeps [simp]:
  "lexic (nasl_set_filename f s) = lexic s"
  "lexic_aux (nasl_set_filename f s) = lexic_aux s"
  "include_files (nasl_set_filename f s) = include_files s"
  "func_fnames_tab (nasl_set_filename f s) = func_fnames_tab s"
  "unusedfiles (nasl_set_filename f s) = unusedfiles s"
  "called_funcs (nasl_set_filename f s) = called_funcs s"
  "def_func_tree (nasl_set_filename f s) = def_func_tree s"
  "defined_var (nasl_set_filename f s) = defined_var s"
  "nasl_name (nasl_set_filename f s) = nasl_name s"
  "current_fun_def (nasl_set_filename f s) = current_fun_def s"
  "defined_flag (nasl_set_filename f s) = defined_flag s"
  "defined_fn_mode (nasl_set_filename f s) = defined_fn_mode s"
  "defined_var_mode (nasl_set_filename f s) = defined_var_mode s"
  "def_glob_var (nasl_set_filename f s) = def_glob_var s"
  "local_var_list (nasl_set_filename f s) = local_var_list s"
  "diags (nasl_set_filename f s) = diags s"
  by (simp_all add: nasl_set_filename_def)

lemma nasl_set_filename_sets [simp]:
  "debug_filename (nasl_set_filename f s) = Some f"
  "ctxt q (nasl_set_filename f s) = ctxt q s"
  by (simp_all add: nasl_set_filename_def ctxt_def split: lexptr.split)

lemma decl_nasl_func_keeps [simp]:
  "include_files (snd (decl_nasl_func p name m s)) = include_files s"
  "func_fnames_tab (snd (decl_nasl_func p name m s)) = func_fnames_tab s"
  "unusedfiles (snd (decl_nasl_func p name m s)) = unusedfiles s"
  "called_funcs (snd (decl_nasl_func p name m s)) = called_funcs s"
  "def_func_tree (snd (decl_nasl_func p name m s)) = def_func_tree s"
  "defined_var (snd (decl_nasl_func p name m s)) = defined_var s"
  "nasl_name (snd (decl_nasl_func p name m s)) = nasl_name s"
  "current_fun_def (snd (decl_nasl_func p name m s)) = current_fun_def s"
  "defined_flag (snd (decl_nasl_func p name m s)) = defined_flag s"
  "defined_fn_mode (snd (decl_nasl_func p name m s)) = defined_fn_mode s"
  "defined_var_mode (snd (decl_nasl_func p name m s)) = defined_var_mode s"
  "def_glob_var (snd (decl_nasl_func p name m s)) = def_glob_var s"
  "local_var_list (snd (decl_nasl_func p name m s)) = local_var_list s"
  "debug_filename (snd (decl_nasl_func p name m s)) = debug_filename s"
  by (simp_all add: decl_nasl_func_def split: option.split)

lemma decl_nasl_func_other [simp]:
  "lexic (snd (decl_nasl_func LEXIC_AUX name m s)) = lexic s"
  "lexic_aux (snd (decl_nasl_func LEXIC name m s)) = lexic_aux s"
  "m \<noteq> 0 \<Longrightarrow> diags (snd (decl_nasl_func p name m s)) = diags s"
  "line_nb (ctxt q (snd (decl_nasl_func p name m s))) = line_nb (ctxt q s)"
  by (simp_all add: decl_nasl_func_def ctxt_def ctxt_update_def split: option.split lexptr.split)

lemma call_list_node_keeps [simp]:
  "lexic (call_list_node e p t sv s) = lexic s"
  "lexic_aux (call_list_node e p t sv s) = lexic_aux s"
  "include_files (call_list_node e p t sv s) = include_files s"
  "func_fnames_tab (call_list_node e p t sv s) = func_fnames_tab s"
  "unusedfiles (call_list_node e p t sv s) = unusedfiles s"
  "def_func_tree (call_list_node e p t sv s) = def_func_tree s"
  "defined_var (call_list_node e p t sv s) = defined_var s"
  "nasl_name (call_list_node e p t sv s) = nasl_name s"
  "current_fun_def (call_list_node e p t sv s) = current_fun_def s"
  "defined_flag (call_list_node e p t sv s) = defined_flag s"
  "defined_fn_mode (call_list_node e p t sv s) = defined_fn_mode s"
  "defined_var_mode (call_list_node e p t sv s) = defined_var_mode s"
  "def_glob_var (call_list_node e p t sv s) = def_glob_var s"
  "local_var_list (call_list_node e p t sv s) = local_var_list s"
  "debug_filename (call_list_node e p t sv s) = debug_filename s"
  "diags (call_list_node e p t sv s) = diags s"
  by (simp_all add: call_list_node_def)

lemma def_fun_def_keeps [simp]:
  "func_fnames_tab (def_fun_def e p sv m s) = func_fnames_tab s"
  "unusedfiles (def_fun_def e p sv m s) = unusedfiles s"
  "called_funcs (def_fun_def e p sv m s) = called_funcs s"
  "def_func_tree (def_fun_def e p sv m s) = def_func_tree s"
  "defined_var (def_fun_def e p sv m s) = defined_var s"
  "nasl_name (def_fun_def e p sv m s) = nasl_name s"
  "defined_flag (def_fun_def e p sv m s) = defined_flag s"
  "defined_fn_mode (def_fun_def e p sv m s) = defined_fn_mode s"
  "defined_var_mode (def_fun_def e p sv m s) = defined_var_mode s"
  "def_glob_var (def_fun_def e p sv m s) = def_glob_var s"
  "local_var_list (def_fun_def e p sv m s) = local_var_list s"
  "debug_filename (def_fun_def e p sv m s) = debug_filename s"
  by (simp_all add: def_fun_def_def Let_def)

lemma def_fun_def_other [simp]:
  "lexic (def_fun_def e LEXIC_AUX sv m s) = lexic s"
  "lexic_aux (def_fun_def e LEXIC sv m s) = lexic_aux s"
  "m \<noteq> 0 \<Longrightarrow> diags (def_fun_def e p sv m s) = diags s"
  "current_fun_def (def_fun_def e p sv m s) = sv"
  by (simp_all add: def_fun_def_def Let_def)

lemma def_fun_call_keeps [simp]:
  "lexic (snd (def_fun_call e p ln sv m l0 err s)) = lexic s"
  "lexic_aux (snd (def_fun_call e p ln sv m l0 err s)) = lexic_aux s"
  "include_files (snd (def_fun_call e p ln sv m l0 err s)) = include_files s"
  "unusedfiles (snd (def_fun_call e p ln sv m l0 err s)) = unusedfiles s"
  "called_funcs (snd (def_fun_call e p ln sv m l0 err s)) = called_funcs s"
  "defined_var (snd (def_fun_call e p ln sv m l0 err s)) = defined_var s"
  "nasl_name (snd (def_fun_call e p ln sv m l0 err s)) = nasl_name s"
  "current_fun_def (snd (def_fun_call e p ln sv m l0 err s)) = current_fun_def s"
  "defined_flag (snd (def_fun_call e p ln sv m l0 err s)) = defined_flag s"
  "defined_fn_mode (snd (def_fun_call e p ln sv m l0 err s)) = defined_fn_mode s"
  "defined_var_mode (snd (def_fun_call e p ln sv m l0 err s)) = defined_var_mode s"
  "def_glob_var (snd (def_fun_call e p ln sv m l0 err s)) = def_glob_var s"
  "local_var_list (snd (def_fun_call e p ln sv m l0 err s)) = local_var_list s"
  "debug_filename (snd (def_fun_call e p ln sv m l0 err s)) = debug_filename s"
  by (simp_all add: def_fun_call_def Let_def split: option.split)

lemma def_fun_call_ctxt [simp]:
  "ctxt q (snd (def_fun_call e p ln sv m l0 err s)) = ctxt q s"
  by (simp add: def_fun_call_def Let_def ctxt_def split: option.split lexptr.split)

lemma call_mark_used_keeps [simp]:
  "lexic (call_mark_used e sv s) = lexic s"
  "lexic_aux (call_mark_used e sv s) = lexic_aux s"
  "func_fnames_tab (call_mark_used e sv s) = func_fnames_tab s"
  "unusedfiles (call_mark_used e sv s) = unusedfiles s"
  "called_funcs (call_mark_used e sv s) = called_funcs s"
  "def_func_tree (call_mark_used e sv s) = def_func_tree s"
  "defined_var (call_mark_used e sv s) = defined_var s"
  "nasl_name (call_mark_used e sv s) = nasl_name s"
  "current_fun_def (call_mark_used e sv s) = current_fun_def s"
  "defined_fn_mode (call_mark_used e sv s) = defined_fn_mode s"
  "defined_var_mode (call_mark_used e sv s) = defined_var_mode s"
  "def_glob_var (call_mark_used e sv s) = def_glob_var s"
  "local_var_list (call_mark_used e sv s) = local_var_list s"
  "debug_filename (call_mark_used e sv s) = debug_filename s"
  "diags (call_mark_used e sv s) = diags s"
  by (simp_all add: call_mark_used_def Let_def)

lemma call_mark_used_ctxt [simp]:
  "ctxt q (call_mark_used e sv s) = ctxt q s"
  by (simp add: call_mark_used_def Let_def ctxt_def split: lexptr.split)

lemma call_set_position_keeps [simp]:
  "include_files (call_set_position p ln sv s) = include_files s"
  "func_fnames_tab (call_set_position p ln sv s) = func_fnames_tab s"
  "unusedfiles (call_set_position p ln sv s) = unusedfiles s"
  "called_funcs (call_set_position p ln sv s) = called_funcs s"
  "def_func_tree (call_set_position p ln sv s) = def_func_tree s"
  "defined_var (call_set_position p ln sv s) = defined_var s"
  "nasl_name (call_set_position p ln sv s) = nasl_name s"
  "current_fun_def (call_set_position p ln sv s) = current_fun_def s"
  "defined_flag (call_set_position p ln sv s) = defined_flag s"
  "defined_fn_mode (call_set_position p ln sv s) = defined_fn_mode s"
  "defined_var_mode (call_set_position p ln sv s) = defined_var_mode s"
  "def_glob_var (call_set_position p ln sv s) = def_glob_var s"
  "local_var_list (call_set_position p ln sv s) = local_var_list s"
  "diags (call_set_position p ln sv s) = diags s"
  by (simp_all add: call_set_position_def Let_def split: option.split)

lemma call_set_position_other [simp]:
  "lexic (call_set_position LEXIC_AUX ln sv s) = lexic s"
  "lexic_aux (call_set_position LEXIC ln sv s) = lexic_aux s"
  "ctx_functions (ctxt q (call_set_position p ln sv s)) = ctx_functions (ctxt q s)"
  "line_nb (ctxt p (call_set_position p ln sv s)) = ln"
  by (simp_all add: call_set_position_def Let_def ctxt_def ctxt_update_def nasl_set_filename_def
      split: option.split lexptr.split)

lemma call_const_keeps [simp]:
  "include_files (call_const p sv s) = include_files s"
  "func_fnames_tab (call_const p sv s) = func_fnames_tab s"
  "unusedfiles (call_const p sv s) = unusedfiles s"
  "called_funcs (call_const p sv s) = called_funcs s"
  "def_func_tree (call_const p sv s) = def_func_tree s"
  "defined_var (call_const p sv s) = defined_var s"
  "nasl_name (call_const p sv s) = nasl_name s"
  "current_fun_def (call_const p sv s) = current_fun_def s"
  "defined_fn_mode (call_const p sv s) = defined_fn_mode s"
  "defined_var_mode (call_const p sv s) = defined_var_mode s"
  "def_glob_var (call_const p sv s) = def_glob_var s"
  "local_var_list (call_const p sv s) = local_var_list s"
  "debug_filename (call_const p sv s) = debug_filename s"
  "diags (call_const p sv s) = diags s"
  by (simp_all add: call_const_def)

lemma call_const_other [simp]:
  "lexic (call_const LEXIC_AUX sv s) = lexic s"
  "lexic_aux (call_const LEXIC sv s) = lexic_aux s"
  by (simp_all add: call_const_def)

lemma defvar_reset_keeps [simp]:
  "lexic (defvar_reset t s) = lexic s"
  "lexic_aux (defvar_reset t s) = lexic_aux s"
  "include_files (defvar_reset t s) = include_files s"
  "func_fnames_tab (defvar_reset t s) = func_fnames_tab s"
  "unusedfiles (defvar_reset t s) = unusedfiles s"
  "called_funcs (defvar_reset t s) = called_funcs s"
  "def_func_tree (defvar_reset t s) = def_func_tree s"
  "defined_var (defvar_reset t s) = defined_var s"
  "nasl_name (defvar_reset t s) = nasl_name s"
  "current_fun_def (defvar_reset t s) = current_fun_def s"
  "defined_flag (defvar_reset t s) = defined_flag s"
  "defined_var_mode (defvar_reset t s) = defined_var_mode s"
  "local_var_list (defvar_reset t s) = local_var_list s"
  "debug_filename (defvar_reset t s) = debug_filename s"
  "diags (defvar_reset t s) = diags s"
  by (simp_all add: defvar_reset_def)

lemma defvar_reset_ctxt [simp]:
  "ctxt q (defvar_reset t s) = ctxt q s"
  by (simp add: defvar_reset_def ctxt_def split: lexptr.split)

lemma defvar_chain_keeps [simp]:
  "include_files (snd (defvar_chain p t ln sv s)) = include_files s"
  "func_fnames_tab (snd (defvar_chain p t ln sv s)) = func_fnames_tab s"
  "unusedfiles (snd (defvar_chain p t ln sv s)) = unusedfiles s"
  "called_funcs (snd (defvar_chain p t ln sv s)) = called_funcs s"
  "def_func_tree (snd (defvar_chain p t ln sv s)) = def_func_tree s"
  "nasl_name (snd (defvar_chain p t ln sv s)) = nasl_name s"
  "current_fun_def (snd (defvar_chain p t ln sv s)) = current_fun_def s"
  "defined_flag (snd (defvar_chain p t ln sv s)) = defined_flag s"
  "debug_filename (snd (defvar_chain p t ln sv s)) = debug_filename s"
  by (simp_all add: defvar_chain_def Let_def split: option.split)

lemma defvar_chain_other [simp]:
  "lexic (snd (defvar_chain LEXIC_AUX t ln sv s)) = lexic s"
  "lexic_aux (snd (defvar_chain LEXIC t ln sv s)) = lexic_aux s"
  "ctx_functions (ctxt q (snd (defvar_chain p t ln sv s))) = ctx_functions (ctxt q s)"
  by (simp_all add: defvar_chain_def Let_def ctxt_def ctxt_update_def nasl_perror_def
      split: option.split lexptr.split)

lemma defvar_node_keeps [simp]:
  "include_files (snd (defvar_node p t ln sv s)) = include_files s"
  "func_fnames_tab (snd (defvar_node p t ln sv s)) = func_fnames_tab s"
  "unusedfiles (snd (defvar_node p t ln sv s)) = unusedfiles s"
  "called_funcs (snd (defvar_node p t ln sv s)) = called_funcs s"
  "def_func_tree (snd (defvar_node p t ln sv s)) = def_func_tree s"
  "nasl_name (snd (defvar_node p t ln sv s)) = nasl_name s"
  "current_fun_def (snd (defvar_node p t ln sv s)) = current_fun_def s"
  "defined_flag (snd (defvar_node p t ln sv s)) = defined_flag s"
  "debug_filename (snd (defvar_node p t ln sv s)) = debug_filename s"
  by (simp_all add: defvar_node_def)

lemma defvar_node_other [simp]:
  "lexic (snd (defvar_node LEXIC_AUX t ln sv s)) = lexic s"
  "lexic_aux (snd (defvar_node LEXIC t ln sv s)) = lexic_aux s"
  "ctx_functions (ctxt q (snd (defvar_node p t ln sv s))) = ctx_functions (ctxt q s)"
  by (simp_all add: defvar_node_def)

lemma add_predef_varname_keeps [simp]:
  "lexic (add_predef_varname e s) = lexic s"
  "lexic_aux (add_predef_varname e s) = lexic_aux s"
  "include_files (add_predef_varname e s) = include_files s"
  "func_fnames_tab (add_predef_varname e s) = func_fnames_tab s"
  "unusedfiles (add_predef_varname e s) = unusedfiles s"
  "called_funcs (add_predef_varname e s) = called_funcs s"
  "def_func_tree (add_predef_varname e s) = def_func_tree s"
  "nasl_name (add_predef_varname e s) = nasl_name s"
  "current_fun_def (add_predef_varname e s) = current_fun_def s"
  "defined_flag (add_predef_varname e s) = defined_flag s"
  "defined_fn_mode (add_predef_varname e s) = defined_fn_mode s"
  "defined_var_mode (add_predef_varname e s) = defined_var_mode s"
  "def_glob_var (add_predef_varname e s) = def_glob_var s"
  "local_var_list (add_predef_varname e s) = local_var_list s"
  "debug_filename (add_predef_varname e s) = debug_filename s"
  "diags (add_predef_varname e s) = diags s"
  by (simp_all add: add_predef_varname_def)

lemma print_uncall_files_keeps [simp]:
  "lexic (print_uncall_files f s) = lexic s"
  "lexic_aux (print_uncall_files f s) = lexic_aux s"
  "include_files (print_uncall_files f s) = include_files s"
  "func_fnames_tab (print_uncall_files f s) = func_fnames_tab s"
  "unusedfiles (print_uncall_files f s) = unusedfiles s"
  "called_funcs (print_uncall_files f s) = called_funcs s"
  "def_func_tree (print_uncall_files f s) = def_func_tree s"
  "defined_var (print_uncall_files f s) = defined_var s"
  "nasl_name (print_uncall_files f s) = nasl_name s"
  "current_fun_def (print_uncall_files f s) = current_fun_def s"
  "defined_flag (print_uncall_files f s) = defined_flag s"
  "defined_fn_mode (print_uncall_files f s) = defined_fn_mode s"
  "defined_var_mode (print_uncall_files f s) = defined_var_mode s"
  "def_glob_var (print_uncall_files f s) = def_glob_var s"
  "local_var_list (print_uncall_files f s) = local_var_list s"
  "debug_filename (print_uncall_files f s) = debug_filename s"
  by (simp_all add: print_uncall_files_def)

lemma lint_fail_keeps [simp]:
  "lexic (snd (lint_fail r s)) = lexic s"
  "defined_var (snd (lint_fail r s)) = defined_var s"
  "nasl_name (snd (lint_fail r s)) = nasl_name s"
  "current_fun_def (snd (lint_fail r s)) = current_fun_def s"
  "defined_flag (snd (lint_fail r s)) = defined_flag s"
  "defined_fn_mode (snd (lint_fail r s)) = defined_fn_mode s"
  "defined_var_mode (snd (lint_fail r s)) = defined_var_mode s"
  "def_glob_var (snd (lint_fail r s)) = def_glob_var s"
  "local_var_list (snd (lint_fail r s)) = local_var_list s"
  "debug_filename (snd (lint_fail r s)) = debug_filename s"
  "diags (snd (lint_fail r s)) = diags s"
  by (simp_all add: lint_fail_def)

lemma lint_init_keeps [simp]:
  "lexic (lint_init e st s) = lexic s"
  "defined_var (lint_init e st s) = defined_var s"
  "current_fun_def (lint_init e st s) = current_fun_def s"
  "defined_flag (lint_init e st s) = defined_flag s"
  "defined_fn_mode (lint_init e st s) = defined_fn_mode s"
  "defined_var_mode (lint_init e st s) = defined_var_mode s"
  "def_glob_var (lint_init e st s) = def_glob_var s"
  "local_var_list (lint_init e st s) = local_var_list s"
  "debug_filename (lint_init e st s) = debug_filename s"
  "diags (lint_init e st s) = diags s"
  by (simp_all add: lint_init_def Let_def)

lemma lint_init_sets [simp]:
  "include_files (lint_init e st s) = []"
  "func_fnames_tab (lint_init e st s) = []"
  "unusedfiles (lint_init e st s) = []"
  "called_funcs (lint_init e st s) = []"
  "def_func_tree (lint_init e st s) = []"
  "lexic_aux (lint_init e st s) = init_empty_lex_ctxt"
  "nasl_name (lint_init e st s) = nasl_get_filename e (str_val st) s"
  by (simp_all add: lint_init_def Let_def nasl_get_filename_def split: option.split)

lemma lint_fail_sets [simp]:
  "fst (lint_fail r s) = r"
  "include_files (snd (lint_fail r s)) = []"
  "func_fnames_tab (snd (lint_fail r s)) = []"
  "unusedfiles (snd (lint_fail r s)) = []"
  "called_funcs (snd (lint_fail r s)) = []"
  "def_func_tree (snd (lint_fail r s)) = []"
  "lexic_aux (snd (lint_fail r s)) = init_empty_lex_ctxt"
  by (simp_all add: lint_fail_def)

lemma nasl_get_filename_cong:
  "debug_filename s = debug_filename s' \<Longrightarrow> nasl_get_filename e f s = nasl_get_filename e f s'"
  by (simp add: nasl_get_filename_def split: option.split)

lemma get_func_ref_by_name_cong:
  "ctx_functions (ctxt p s) = ctx_functions (ctxt p s') \<Longrightarrow>
   get_func_ref_by_name e p s n = get_func_ref_by_name e p s' n"
  by (simp add: get_func_ref_by_name_def split: option.split)

subsection \<open>What each pass keeps\<close>

lemma postI:
  assumes "fst x = NULL_CELL \<Longrightarrow> F (snd x)"
    and "fst x \<noteq> NULL_CELL \<Longrightarrow> fst x = FAKE_CELL \<and> I (snd x)"
  shows "post F I x"
  using assms by (simp add: post_def)

lemma post_keep:
  assumes "fst x = NULL_CELL \<or> fst x = FAKE_CELL" and "P (snd x)"
  shows "post P P x"
  using assms by (auto simp: post_def)

lemma post_snd:
  assumes "post P P x"
  shows "P (snd x)"
  using assms by (auto simp: post_def split: if_splits)

lemma post_ret:
  assumes "post F I x"
  shows "fst x = NULL_CELL \<or> fst x = FAKE_CELL"
  using assms by (auto simp: post_def split: if_splits)

lemma post_mono:
  assumes "post F I x" and "\<And>s. F s \<Longrightarrow> F' s" and "\<And>s. I s \<Longrightarrow> I' s"
  shows "post F' I' x"
  using assms by (auto simp: post_def split: if_splits)

lemma post_opt_mono:
  assumes "post_opt F I x" and "\<And>s. F s \<Longrightarrow> F' s" and "\<And>s. I s \<Longrightarrow> I' s"
  shows "post_opt F' I' x"
  using assms by (cases x) (auto simp: post_def split: if_splits)

lemma post_conj:
  assumes "post F I x" and "post F' I' x"
  shows "post (\<lambda>s. F s \<and> F' s) (\<lambda>s. I s \<and> I' s) x"
  using assms by (auto simp: post_def split: if_splits)

lemma post_opt_conj:
  assumes "post_opt F I x" and "post_opt F' I' x"
  shows "post_opt (\<lambda>s. F s \<and> F' s) (\<lambda>s. I s \<and> I' s) x"
  using assms by (cases x) (auto simp: post_def split: if_splits)

lemma def_fun_call_ret:
  "fst (def_fun_call e p ln sv m l0 err s) = NULL_CELL
   \<or> fst (def_fun_call e p ln sv m l0 err s) = FAKE_CELL"
  by (simp add: def_fun_call_def Let_def split: option.split)

lemma decl_nasl_func_ret:
  "fst (decl_nasl_func p sv m s) = NULL_CELL \<or> fst (decl_nasl_func p sv m s) = FAKE_CELL"
  by (simp add: decl_nasl_func_def split: option.split)

lemma defvar_chain_ret:
  "fst (defvar_chain p t ln sv s) = NULL_CELL \<or> fst (defvar_chain p t ln sv s) = FAKE_CELL"
  by (simp add: defvar_chain_def Let_def split: option.split)

lemma defvar_node_ret:
  "fst (defvar_node p t ln sv s) = NULL_CELL \<or> fst (defvar_node p t ln sv s) = FAKE_CELL"
  by (simp add: defvar_node_def defvar_chain_ret)

lemma call_fun_call_ret:
  "call_fun_call e p ln sv s = Some (c, s') \<Longrightarrow> c = NULL_CELL \<or> c = FAKE_CELL"
  by (auto simp: call_fun_call_def Let_def split: if_splits option.splits)

lemma nasl_lint_def_frame:
  assumes "st \<noteq> NULL_CELL" "st \<noteq> FAKE_CELL"
  shows "post (\<lambda>s'. unusedfiles s' = unusedfiles s \<and> called_funcs s' = called_funcs s \<and> defined_var s' = defined_var s \<and> nasl_name s' = nasl_name s \<and> defined_flag s' = defined_flag s \<and> defined_fn_mode s' = defined_fn_mode s \<and> defined_var_mode s' = defined_var_mode s \<and> def_glob_var s' = def_glob_var s \<and> local_var_list s' = local_var_list s \<and> debug_filename s' = debug_filename s) (\<lambda>s'. unusedfiles s' = unusedfiles s \<and> called_funcs s' = called_funcs s \<and> defined_var s' = defined_var s \<and> nasl_name s' = nasl_name s \<and> defined_flag s' = defined_flag s \<and> defined_fn_mode s' = defined_fn_mode s \<and> defined_var_mode s' = defined_var_mode s \<and> def_glob_var s' = def_glob_var s \<and> local_var_list s' = local_var_list s \<and> debug_filename s' = debug_filename s)
           (nasl_lint_def e p st m err s)"
proof (rule nasl_lint_def_rule[where I = "\<lambda>s'. unusedfiles s' = unusedfiles s \<and> called_funcs s' = called_funcs s \<and> defined_var s' = defined_var s \<and> nasl_name s' = nasl_name s \<and> defined_flag s' = defined_flag s \<and> defined_fn_mode s' = defined_fn_mode s \<and> defined_var_mode s' = defined_var_mode s \<and> def_glob_var s' = def_glob_var s \<and> local_var_list s' = local_var_list s \<and> debug_filename s' = debug_filename s"])
  fix f and s2 s3 :: lint_state
  assume "unusedfiles s2 = unusedfiles s \<and> called_funcs s2 = called_funcs s \<and> defined_var s2 = defined_var s \<and> nasl_name s2 = nasl_name s \<and> defined_flag s2 = defined_flag s \<and> defined_fn_mode s2 = defined_fn_mode s \<and> defined_var_mode s2 = defined_var_mode s \<and> def_glob_var s2 = def_glob_var s \<and> local_var_list s2 = local_var_list s \<and> debug_filename s2 = debug_filename s" "unusedfiles s3 = unusedfiles s \<and> called_funcs s3 = called_funcs s \<and> defined_var s3 = defined_var s \<and> nasl_name s3 = nasl_name s \<and> defined_flag s3 = defined_flag s \<and> defined_fn_mode s3 = defined_fn_mode s \<and> defined_var_mode s3 = defined_var_mode s \<and> def_glob_var s3 = def_glob_var s \<and> local_var_list s3 = local_var_list s \<and> debug_filename s3 = debug_filename s"
    "nasl_get_filename e None s2 = Some f"
  then show "unusedfiles (nasl_set_filename f s3) = unusedfiles s \<and> called_funcs (nasl_set_filename f s3) = called_funcs s \<and> defined_var (nasl_set_filename f s3) = defined_var s \<and> nasl_name (nasl_set_filename f s3) = nasl_name s \<and> defined_flag (nasl_set_filename f s3) = defined_flag s \<and> defined_fn_mode (nasl_set_filename f s3) = defined_fn_mode s \<and> defined_var_mode (nasl_set_filename f s3) = defined_var_mode s \<and> def_glob_var (nasl_set_filename f s3) = def_glob_var s \<and> local_var_list (nasl_set_filename f s3) = local_var_list s \<and> debug_filename (nasl_set_filename f s3) = debug_filename s"
    by (simp add: nasl_get_filename_def nasl_set_filename_def)
qed (use assms in \<open>auto intro!: post_keep def_fun_call_ret decl_nasl_func_ret\<close>)

lemma nasl_lint_def_keeps [simp]:
  assumes "st \<noteq> NULL_CELL" "st \<noteq> FAKE_CELL"
  shows "unusedfiles (snd (nasl_lint_def e p st m err s)) = unusedfiles s"
    "called_funcs (snd (nasl_lint_def e p st m err s)) = called_funcs s"
    "defined_var (snd (nasl_lint_def e p st m err s)) = defined_var s"
    "nasl_name (snd (nasl_lint_def e p st m err s)) = nasl_name s"
    "defined_flag (snd (nasl_lint_def e p st m err s)) = defined_flag s"
    "defined_fn_mode (snd (nasl_lint_def e p st m err s)) = defined_fn_mode s"
    "defined_var_mode (snd (nasl_lint_def e p st m err s)) = defined_var_mode s"
    "def_glob_var (snd (nasl_lint_def e p st m err s)) = def_glob_var s"
    "local_var_list (snd (nasl_lint_def e p st m err s)) = local_var_list s"
    "debug_filename (snd (nasl_lint_def e p st m err s)) = debug_filename s"
  using post_snd[OF nasl_lint_def_frame[OF assms, where e=e and p=p and m=m and err=err and s=s]]
  by simp_all

lemma nasl_lint_def_ret:
  assumes "st \<noteq> NULL_CELL" "st \<noteq> FAKE_CELL"
  shows "fst (nasl_lint_def e p st m err s) = NULL_CELL \<or> fst (nasl_lint_def e p st m err s) = FAKE_CELL"
  by (rule post_ret[OF nasl_lint_def_frame[OF assms]])

lemma nasl_lint_def_other:
  assumes "st \<noteq> NULL_CELL" "st \<noteq> FAKE_CELL"
  shows "post (\<lambda>s'. lexic s' = lexic s) (\<lambda>s'. lexic s' = lexic s)
           (nasl_lint_def e LEXIC_AUX st m err s)"
    and "post (\<lambda>s'. lexic_aux s' = lexic_aux s) (\<lambda>s'. lexic_aux s' = lexic_aux s)
           (nasl_lint_def e LEXIC st m err s)"
  by (rule nasl_lint_def_rule[where I = "\<lambda>s'. lexic s' = lexic s"];
      use assms in \<open>auto intro!: post_keep def_fun_call_ret decl_nasl_func_ret\<close>)
     (rule nasl_lint_def_rule[where I = "\<lambda>s'. lexic_aux s' = lexic_aux s"];
      use assms in \<open>auto intro!: post_keep def_fun_call_ret decl_nasl_func_ret\<close>)

lemma nasl_lint_def_keeps_other [simp]:
  assumes "st \<noteq> NULL_CELL" "st \<noteq> FAKE_CELL"
  shows "lexic (snd (nasl_lint_def e LEXIC_AUX st m err s)) = lexic s"
    "lexic_aux (snd (nasl_lint_def e LEXIC st m err s)) = lexic_aux s"
  using post_snd[OF nasl_lint_def_other(1)[OF assms, where e=e and m=m and err=err and s=s]]
    post_snd[OF nasl_lint_def_other(2)[OF assms, where e=e and m=m and err=err and s=s]]
  by simp_all

lemma nasl_lint_call_frame:
  assumes "st \<noteq> NULL_CELL" "st \<noteq> FAKE_CELL"
  shows "post_opt (\<lambda>s'. func_fnames_tab s' = func_fnames_tab s \<and> unusedfiles s' = unusedfiles s \<and> called_funcs s' = called_funcs s \<and> def_func_tree s' = def_func_tree s \<and> defined_var s' = defined_var s \<and> nasl_name s' = nasl_name s \<and> current_fun_def s' = current_fun_def s \<and> defined_fn_mode s' = defined_fn_mode s \<and> defined_var_mode s' = defined_var_mode s \<and> def_glob_var s' = def_glob_var s \<and> local_var_list s' = local_var_list s) (\<lambda>s'. func_fnames_tab s' = func_fnames_tab s \<and> unusedfiles s' = unusedfiles s \<and> called_funcs s' = called_funcs s \<and> def_func_tree s' = def_func_tree s \<and> defined_var s' = defined_var s \<and> nasl_name s' = nasl_name s \<and> current_fun_def s' = current_fun_def s \<and> defined_fn_mode s' = defined_fn_mode s \<and> defined_var_mode s' = defined_var_mode s \<and> def_glob_var s' = def_glob_var s \<and> local_var_list s' = local_var_list s)
           (nasl_lint_call e p st s)"
proof (rule nasl_lint_call_rule[where I = "\<lambda>s'. func_fnames_tab s' = func_fnames_tab s \<and> unusedfiles s' = unusedfiles s \<and> called_funcs s' = called_funcs s \<and> def_func_tree s' = def_func_tree s \<and> defined_var s' = defined_var s \<and> nasl_name s' = nasl_name s \<and> current_fun_def s' = current_fun_def s \<and> defined_fn_mode s' = defined_fn_mode s \<and> defined_var_mode s' = defined_var_mode s \<and> def_glob_var s' = def_glob_var s \<and> local_var_list s' = local_var_list s"])
  fix ln sv and s1 :: lint_state
  assume I: "func_fnames_tab s1 = func_fnames_tab s \<and> unusedfiles s1 = unusedfiles s \<and> called_funcs s1 = called_funcs s \<and> def_func_tree s1 = def_func_tree s \<and> defined_var s1 = defined_var s \<and> nasl_name s1 = nasl_name s \<and> current_fun_def s1 = current_fun_def s \<and> defined_fn_mode s1 = defined_fn_mode s \<and> defined_var_mode s1 = defined_var_mode s \<and> def_glob_var s1 = def_glob_var s \<and> local_var_list s1 = local_var_list s"
  show "post_opt (\<lambda>s'. func_fnames_tab s' = func_fnames_tab s \<and> unusedfiles s' = unusedfiles s \<and> called_funcs s' = called_funcs s \<and> def_func_tree s' = def_func_tree s \<and> defined_var s' = defined_var s \<and> nasl_name s' = nasl_name s \<and> current_fun_def s' = current_fun_def s \<and> defined_fn_mode s' = defined_fn_mode s \<and> defined_var_mode s' = defined_var_mode s \<and> def_glob_var s' = def_glob_var s \<and> local_var_list s' = local_var_list s) (\<lambda>s'. func_fnames_tab s' = func_fnames_tab s \<and> unusedfiles s' = unusedfiles s \<and> called_funcs s' = called_funcs s \<and> def_func_tree s' = def_func_tree s \<and> defined_var s' = defined_var s \<and> nasl_name s' = nasl_name s \<and> current_fun_def s' = current_fun_def s \<and> defined_fn_mode s' = defined_fn_mode s \<and> defined_var_mode s' = defined_var_mode s \<and> def_glob_var s' = def_glob_var s \<and> local_var_list s' = local_var_list s)
           (call_fun_call e p ln sv s1)"
  proof (cases "call_fun_call e p ln sv s1")
    case (Some cs)
    obtain c s2 where cs: "cs = (c, s2)" by (cases cs)
    from Some cs have "func_fnames_tab s2 = func_fnames_tab s1 \<and> unusedfiles s2 = unusedfiles s1 \<and> called_funcs s2 = called_funcs s1 \<and> def_func_tree s2 = def_func_tree s1 \<and> defined_var s2 = defined_var s1 \<and> nasl_name s2 = nasl_name s1 \<and> current_fun_def s2 = current_fun_def s1 \<and> defined_fn_mode s2 = defined_fn_mode s1 \<and> defined_var_mode s2 = defined_var_mode s1 \<and> def_glob_var s2 = def_glob_var s1 \<and> local_var_list s2 = local_var_list s1"
      by (auto simp: call_fun_call_def Let_def split: if_splits option.splits)
    with I call_fun_call_ret[of e p ln sv s1 c s2] Some cs show ?thesis
      by (auto intro!: post_keep)
  qed simp
qed (use assms in auto)

lemma nasl_lint_call_keeps:
  assumes "st \<noteq> NULL_CELL" "st \<noteq> FAKE_CELL" and "nasl_lint_call e p st s = Some (r, s')"
  shows "func_fnames_tab s' = func_fnames_tab s"
    "unusedfiles s' = unusedfiles s"
    "called_funcs s' = called_funcs s"
    "def_func_tree s' = def_func_tree s"
    "defined_var s' = defined_var s"
    "nasl_name s' = nasl_name s"
    "current_fun_def s' = current_fun_def s"
    "defined_fn_mode s' = defined_fn_mode s"
    "defined_var_mode s' = defined_var_mode s"
    "def_glob_var s' = def_glob_var s"
    "local_var_list s' = local_var_list s"
    "r = NULL_CELL \<or> r = FAKE_CELL"
  using nasl_lint_call_frame[OF assms(1,2), where e=e and p=p and s=s] assms(3)
  by (auto simp: post_def split: if_splits)

lemma nasl_lint_defvar_frame:
  assumes "st \<noteq> NULL_CELL" "st \<noteq> FAKE_CELL"
  shows "post (\<lambda>s'. include_files s' = include_files s \<and> func_fnames_tab s' = func_fnames_tab s \<and> unusedfiles s' = unusedfiles s \<and> called_funcs s' = called_funcs s \<and> def_func_tree s' = def_func_tree s \<and> nasl_name s' = nasl_name s \<and> current_fun_def s' = current_fun_def s \<and> defined_flag s' = defined_flag s \<and> debug_filename s' = debug_filename s) (\<lambda>s'. include_files s' = include_files s \<and> func_fnames_tab s' = func_fnames_tab s \<and> unusedfiles s' = unusedfiles s \<and> called_funcs s' = called_funcs s \<and> def_func_tree s' = def_func_tree s \<and> nasl_name s' = nasl_name s \<and> current_fun_def s' = current_fun_def s \<and> defined_flag s' = defined_flag s \<and> debug_filename s' = debug_filename s)
           (nasl_lint_defvar p st s)"
  by (rule nasl_lint_defvar_rule[where I = "\<lambda>s'. include_files s' = include_files s \<and> func_fnames_tab s' = func_fnames_tab s \<and> unusedfiles s' = unusedfiles s \<and> called_funcs s' = called_funcs s \<and> def_func_tree s' = def_func_tree s \<and> nasl_name s' = nasl_name s \<and> current_fun_def s' = current_fun_def s \<and> defined_flag s' = defined_flag s \<and> debug_filename s' = debug_filename s"])
     (use assms in \<open>auto intro!: post_keep defvar_node_ret\<close>)

lemma nasl_lint_defvar_keeps [simp]:
  assumes "st \<noteq> NULL_CELL" "st \<noteq> FAKE_CELL"
  shows "include_files (snd (nasl_lint_defvar p st s)) = include_files s"
    "func_fnames_tab (snd (nasl_lint_defvar p st s)) = func_fnames_tab s"
    "unusedfiles (snd (nasl_lint_defvar p st s)) = unusedfiles s"
    "called_funcs (snd (nasl_lint_defvar p st s)) = called_funcs s"
    "def_func_tree (snd (nasl_lint_defvar p st s)) = def_func_tree s"
    "nasl_name (snd (nasl_lint_defvar p st s)) = nasl_name s"
    "current_fun_def (snd (nasl_lint_defvar p st s)) = current_fun_def s"
    "defined_flag (snd (nasl_lint_defvar p st s)) = defined_flag s"
    "debug_filename (snd (nasl_lint_defvar p st s)) = debug_filename s"
  using post_snd[OF nasl_lint_defvar_frame[OF assms, where p=p and s=s]] by simp_all

lemma nasl_lint_defvar_ret:
  assumes "st \<noteq> NULL_CELL" "st \<noteq> FAKE_CELL"
  shows "fst (nasl_lint_defvar p st s) = NULL_CELL \<or> fst (nasl_lint_defvar p st s) = FAKE_CELL"
  by (rule post_ret[OF nasl_lint_defvar_frame[OF assms]])

lemma nasl_lint_defvar_other:
  assumes "st \<noteq> NULL_CELL" "st \<noteq> FAKE_CELL"
  shows "post (\<lambda>s'. lexic s' = lexic s) (\<lambda>s'. lexic s' = lexic s)
           (nasl_lint_defvar LEXIC_AUX st s)"
  by (rule nasl_lint_defvar_rule[where I = "\<lambda>s'. lexic s' = lexic s"])
     (use assms in \<open>auto intro!: post_keep defvar_node_ret\<close>)

lemma make_call_func_list_frame:
  assumes "st \<noteq> NULL_CELL" "st \<noteq> FAKE_CELL"
  shows "\<exists>cf. make_call_func_list e p st s = (FAKE_CELL, s\<lparr>called_funcs := cf\<rparr>)"
proof -
  have "post (\<lambda>_. False) (\<lambda>s'. \<exists>cf. s' = s\<lparr>called_funcs := cf\<rparr>) (make_call_func_list e p st s)"
  proof (rule make_call_func_list_rule[where I = "\<lambda>s'. \<exists>cf. s' = s\<lparr>called_funcs := cf\<rparr>"])
    show "\<exists>cf. s = s\<lparr>called_funcs := cf\<rparr>" by (rule exI[of _ "called_funcs s"]) simp
  qed (use assms in \<open>auto simp: call_list_node_def\<close>)
  then show ?thesis
    by (cases "make_call_func_list e p st s") (auto simp: post_def split: if_splits)
qed

subsection \<open>The reverse search\<close>

lemma reverse_search_inc:
  assumes "reverse_search nm dft fi = Some r"
  shows "g_str_has_suffix nm ''.inc'' \<longrightarrow> r = 0"
proof (rule reverse_search.raw_induct
    [where P = "\<lambda>nm dft fi r. g_str_has_suffix nm ''.inc'' \<longrightarrow> r = 0", OF _ assms])
  fix rs :: "string option \<Rightarrow> func_info list \<Rightarrow> func_info \<Rightarrow> int option"
  fix nm dft and fdata :: func_info and y :: int
  assume IH: "\<And>n d f z. rs n d f = Some z \<Longrightarrow> g_str_has_suffix n ''.inc'' \<longrightarrow> z = 0"
  assume eq: "(if caller_file fdata = nm \<and> \<not> g_str_has_suffix nm ''.inc'' then Some 1
      else if func_name fdata = caller_func fdata then Some 0
           else case g_slist_find_custom dft (caller_func fdata) list_cmp1 of
                None \<Rightarrow> Some 0
                | Some finfo_aux \<Rightarrow>
                    Option.bind (rs nm dft finfo_aux)
                     (\<lambda>r. if r \<noteq> 0 then Some 1 else Some 0)) = Some y"
  show "g_str_has_suffix nm ''.inc'' \<longrightarrow> y = 0"
  proof
    assume sfx: "g_str_has_suffix nm ''.inc''"
    show "y = 0"
    proof (cases "func_name fdata = caller_func fdata")
      case True
      with eq sfx show ?thesis by simp
    next
      case False
      show ?thesis
      proof (cases "g_slist_find_custom dft (caller_func fdata) list_cmp1")
        case None
        with eq sfx False show ?thesis by simp
      next
        case (Some aux)
        with eq sfx False obtain r where r: "rs nm dft aux = Some r"
          and y: "y = (if r \<noteq> 0 then 1 else 0)"
          by (auto simp: Option.bind_eq_Some_conv split: if_splits)
        from IH[OF r] sfx have "r = 0" by simp
        with y show ?thesis by simp
      qed
    qed
  qed
qed

lemma reverse_search_range:
  assumes "reverse_search nm dft fi = Some r"
  shows "r = 0 \<or> r = 1"
  by (rule reverse_search.raw_induct[where P = "\<lambda>nm dft fi r. r = 0 \<or> r = 1", OF _ assms])
     (auto simp: Option.bind_eq_Some_conv split: if_splits option.splits)

lemma cycle_no_result:
  assumes "reverse_search nm dft fi = Some r"
  shows "\<not> (nm = Some ''t.nasl'' \<and> dft = [site_ab, site_ua, site_ba] \<and> fi \<in> {site_ab, site_ua, site_ba})"
proof (rule reverse_search.raw_induct
    [where P = "\<lambda>nm dft fi r. \<not> (nm = Some ''t.nasl'' \<and> dft = [site_ab, site_ua, site_ba]
                  \<and> fi \<in> {site_ab, site_ua, site_ba})", OF _ assms])
  fix rs :: "string option \<Rightarrow> func_info list \<Rightarrow> func_info \<Rightarrow> int option"
  fix nm dft and fdata :: func_info and y :: int
  assume IH: "\<And>n d f z. rs n d f = Some z \<Longrightarrow>
     \<not> (n = Some ''t.nasl'' \<and> d = [site_ab, site_ua, site_ba] \<and> f \<in> {site_ab, site_ua, site_ba})"
  assume eq: "(if caller_file fdata = nm \<and> \<not> g_str_has_suffix nm ''.inc'' then Some 1
      else if func_name fdata = caller_func fdata then Some 0
           else case g_slist_find_custom dft (caller_func fdata) list_cmp1 of
                None \<Rightarrow> Some 0
                | Some finfo_aux \<Rightarrow>
                    Option.bind (rs nm dft finfo_aux)
                     (\<lambda>r. if r \<noteq> 0 then Some 1 else Some 0)) = Some y"
  show "\<not> (nm = Some ''t.nasl'' \<and> dft = [site_ab, site_ua, site_ba] \<and> fdata \<in> {site_ab, site_ua, site_ba})"
  proof
    assume a: "nm = Some ''t.nasl'' \<and> dft = [site_ab, site_ua, site_ba] \<and> fdata \<in> {site_ab, site_ua, site_ba}"
    then obtain aux where f: "g_slist_find_custom dft (caller_func fdata) list_cmp1 = Some aux"
      and aux: "aux \<in> {site_ab, site_ua, site_ba}"
      and ne: "func_name fdata \<noteq> caller_func fdata" "caller_file fdata \<noteq> nm"
      by (auto simp: g_slist_find_custom_def list_cmp1_def site_ab_def site_ba_def site_ua_def)
    with eq obtain z where "rs nm dft aux = Some z"
      by (auto simp: Option.bind_eq_Some_conv)
    from IH[OF this] a aux show False by simp
  qed
qed

lemma reverse_search_cycle:
  "reverse_search (Some ''t.nasl'') [site_ab, site_ua, site_ba] site_ua = None"
proof (cases "reverse_search (Some ''t.nasl'') [site_ab, site_ua, site_ba] site_ua")
  case (Some r)
  from cycle_no_result[OF this] show ?thesis by simp
qed simp

subsection \<open>The diagnostics of each pass\<close>

text \<open>
  A pass that succeeds writes nothing; one that fails writes one diagnostic, of its own
  kind. The check of the included files writes one diagnostic for each unused file.
\<close>

lemma emits_refl: "diags s' = diags s \<Longrightarrow> emits K s s'"
  by (simp add: emits_def)

lemma emits_trans: "emits K s s' \<Longrightarrow> emits K s' s'' \<Longrightarrow> emits K s s''"
  by (auto simp: emits_def)

lemma emits_one_more: "one_more K (diags s) s' \<Longrightarrow> emits K s s'"
  by (auto simp: emits_def one_more_def)

lemma emits_mono: "emits K s s' \<Longrightarrow> (\<And>m. K m \<Longrightarrow> K' m) \<Longrightarrow> emits K' s s'"
  by (auto simp: emits_def)

lemma def_fun_call_diags:
  assumes "diags s = ds"
  shows "post (one_more (\<lambda>m. \<exists>a. m = DuplicateCallParameter a sv) ds) (\<lambda>s'. diags s' = ds)
           (def_fun_call e p ln sv m l0 err s)"
  using assms
  by (simp add: def_fun_call_def Let_def one_more_def split: option.split)

lemma decl_nasl_func_diags:
  assumes "diags s = ds"
  shows "post (\<lambda>s'. if m = 0 then one_more (\<lambda>m. m = DuplicateFunctionDefinition sv) ds s'
                     else diags s' = ds)
              (\<lambda>s'. diags s' = ds) (decl_nasl_func p sv m s)"
  using assms
  by (simp add: decl_nasl_func_def one_more_def split: option.split)

lemma nasl_lint_def_diags:
  assumes "st \<noteq> NULL_CELL" "st \<noteq> FAKE_CELL" and "diags s = ds"
  shows "post (one_more (\<lambda>m. (\<exists>a f. m = DuplicateCallParameter a f)
                            \<or> (\<exists>n. m = DuplicateFunctionDefinition n)) ds)
              (\<lambda>s'. diags s' = ds) (nasl_lint_def e p st m err s)"
proof (rule nasl_lint_def_rule[where I = "\<lambda>s'. diags s' = ds"])
  fix ln sv l0 err and s :: lint_state
  assume "diags s = ds"
  from def_fun_call_diags[OF this, where sv=sv and e=e and p=p and ln=ln and m=m and ?l0.0=l0 and err=err]
  show "post (one_more (\<lambda>m. (\<exists>a f. m = DuplicateCallParameter a f)
                            \<or> (\<exists>n. m = DuplicateFunctionDefinition n)) ds)
              (\<lambda>s'. diags s' = ds) (def_fun_call e p ln sv m l0 err s)"
    by (auto simp: post_def one_more_def)
next
  fix sv and s :: lint_state
  assume "diags s = ds" "m = 0"
  from decl_nasl_func_diags[OF this(1), where m=m and sv=sv and p=p] this(2)
  show "post (one_more (\<lambda>m. (\<exists>a f. m = DuplicateCallParameter a f)
                            \<or> (\<exists>n. m = DuplicateFunctionDefinition n)) ds)
              (\<lambda>s'. diags s' = ds) (decl_nasl_func p sv m s)"
    by (auto simp: post_def one_more_def)
qed (use assms in auto)

lemma defvar_chain_diags:
  assumes "diags s = ds"
  shows "post (one_more (\<lambda>m. m = UndeclaredVariable sv) ds) (\<lambda>s'. diags s' = ds)
           (defvar_chain p t ln sv s)"
  using assms
  by (simp add: defvar_chain_def Let_def one_more_def split: option.split)

lemma nasl_lint_defvar_diags:
  assumes "st \<noteq> NULL_CELL" "st \<noteq> FAKE_CELL" and "diags s = ds"
  shows "post (one_more (\<lambda>m. \<exists>v. m = UndeclaredVariable v) ds) (\<lambda>s'. diags s' = ds)
           (nasl_lint_defvar p st s)"
proof (rule nasl_lint_defvar_rule[where I = "\<lambda>s'. diags s' = ds"])
  fix t ln sv and s :: lint_state
  assume "diags s = ds"
  then have "diags (defvar_reset t s) = ds" by simp
  from defvar_chain_diags[OF this, where sv=sv and p=p and t=t and ln=ln]
  show "post (one_more (\<lambda>m. \<exists>v. m = UndeclaredVariable v) ds) (\<lambda>s'. diags s' = ds)
           (defvar_node p t ln sv s)"
    by (auto simp: post_def one_more_def defvar_node_def)
qed (use assms in auto)

lemma fold_print_uncall_files_diags:
  "diags (fold print_uncall_files fs s) =
     diags s @ map (\<lambda>f. Diag (UnusedIncludeFile f) (line_nb (lexic_aux s)) (debug_filename s))
                 (filter (\<lambda>f. f \<noteq> None) fs)"
proof (induction fs arbitrary: s)
  case (Cons f fs)
  have "line_nb (lexic_aux (print_uncall_files f s)) = line_nb (lexic_aux s)"
    "debug_filename (print_uncall_files f s) = debug_filename s"
    by simp_all
  with Cons show ?case
    by (simp add: print_uncall_files_def ctxt_def)
qed simp

lemma fold_print_uncall_files_keeps [simp]:
  "unusedfiles (fold print_uncall_files fs s) = unusedfiles s"
  "include_files (fold print_uncall_files fs s) = include_files s"
  "lexic (fold print_uncall_files fs s) = lexic s"
  "lexic_aux (fold print_uncall_files fs s) = lexic_aux s"
  "called_funcs (fold print_uncall_files fs s) = called_funcs s"
  "nasl_name (fold print_uncall_files fs s) = nasl_name s"
  "debug_filename (fold print_uncall_files fs s) = debug_filename s"
  "local_var_list (fold print_uncall_files fs s) = local_var_list s"
  "defined_fn_mode (fold print_uncall_files fs s) = defined_fn_mode s"
  "defined_var_mode (fold print_uncall_files fs s) = defined_var_mode s"
  "def_glob_var (fold print_uncall_files fs s) = def_glob_var s"
  "defined_flag (fold print_uncall_files fs s) = defined_flag s"
  "current_fun_def (fold print_uncall_files fs s) = current_fun_def s"
  by (induction fs arbitrary: s) simp_all

lemma lint_unused_files_emits:
  "emits (\<lambda>m. \<exists>f. m = UnusedIncludeFile f) s (lint_unused_files s)"
  by (auto simp: lint_unused_files_def Let_def emits_def fold_print_uncall_files_diags)

subsection \<open>A top-level file with the suffix .inc\<close>

lemma call_fun_call_inc:
  assumes "g_str_has_suffix nm ''.inc''" and "nasl_name s = nm \<and> diags s = ds"
  shows "post_opt (\<lambda>_. False) (\<lambda>s'. nasl_name s' = nm \<and> diags s' = ds) (call_fun_call e p ln sv s)"
proof (cases "get_func_ref_by_name e p s sv")
  case True
  with assms show ?thesis by (simp add: call_fun_call_def)
next
  case False
  let ?s2 = "call_set_position p ln sv s"
  show ?thesis
  proof (cases "g_slist_find_custom (def_func_tree ?s2) sv list_cmp1")
    case None
    with False assms show ?thesis by (simp add: call_fun_call_def)
  next
    case (Some aux)
    show ?thesis
    proof (cases "reverse_search (nasl_name ?s2) (def_func_tree ?s2) aux")
      case None
      with False Some show ?thesis by (simp add: call_fun_call_def)
    next
      case r: (Some r)
      from reverse_search_inc[OF r] assms have "r = 0" by simp
      with r False Some assms show ?thesis by (simp add: call_fun_call_def)
    qed
  qed
qed

lemma nasl_lint_call_inc:
  assumes "g_str_has_suffix nm ''.inc''" "st \<noteq> NULL_CELL" "st \<noteq> FAKE_CELL"
    and "nasl_name s = nm \<and> diags s = ds"
  shows "post_opt (\<lambda>_. False) (\<lambda>s'. nasl_name s' = nm \<and> diags s' = ds) (nasl_lint_call e p st s)"
  by (rule nasl_lint_call_rule[where I = "\<lambda>s'. nasl_name s' = nm \<and> diags s' = ds"])
     (use assms call_fun_call_inc in auto)

lemma nasl_lint_def_emits:
  assumes "st \<noteq> NULL_CELL" "st \<noteq> FAKE_CELL"
  shows "emits (\<lambda>m. \<not> is_UndefinedFunction m) s (snd (nasl_lint_def e p st m err s))"
proof -
  from nasl_lint_def_diags[OF assms refl, of s e p m err]
  show ?thesis
    by (cases "nasl_lint_def e p st m err s")
       (auto simp: post_def one_more_def emits_def split: if_splits)
qed

lemma nasl_lint_defvar_emits:
  assumes "st \<noteq> NULL_CELL" "st \<noteq> FAKE_CELL"
  shows "emits (\<lambda>m. \<not> is_UndefinedFunction m) s (snd (nasl_lint_defvar p st s))"
proof -
  from nasl_lint_defvar_diags[OF assms refl, of s p]
  show ?thesis
    by (cases "nasl_lint_defvar p st s")
       (auto simp: post_def one_more_def emits_def split: if_splits)
qed

text \<open>
  C10. If the name of the top-level file ends with \<open>.inc\<close>, the reverse search never
  answers 1 (reachable), whatever the call sites, and the analysis of the script writes
  no diagnostic for an undefined function, whatever it calls.
\<close>

theorem inc_script_never_undefined:
  assumes sfx: "g_str_has_suffix (nasl_get_filename e (str_val st) s) ''.inc''"
    and st: "st \<noteq> NULL_CELL" "st \<noteq> FAKE_CELL"
  shows "(\<forall>dft fdata. reverse_search (nasl_get_filename e (str_val st) s) dft fdata \<noteq> Some 1)
       \<and> (\<forall>r s'. nasl_lint e st s = Some (r, s') \<longrightarrow>
            emits (\<lambda>m. \<not> is_UndefinedFunction m) s s')"
proof (intro conjI allI impI)
  fix dft fdata
  show "reverse_search (nasl_get_filename e (str_val st) s) dft fdata \<noteq> Some 1"
    using reverse_search_inc[of "nasl_get_filename e (str_val st) s" dft fdata 1] sfx by auto
next
  fix r s'
  assume nl: "nasl_lint e st s = Some (r, s')"
  let ?K = "\<lambda>m. \<not> is_UndefinedFunction m"
  let ?nm = "nasl_get_filename e (str_val st) s"
  let ?s2 = "lint_init e st s"
  obtain cf where mk: "make_call_func_list e LEXIC_AUX st ?s2 = (FAKE_CELL, ?s2\<lparr>called_funcs := cf\<rparr>)"
    using make_call_func_list_frame[OF st] by blast
  let ?s3 = "?s2\<lparr>called_funcs := cf\<rparr>"
  have e3: "emits ?K s ?s3" by (simp add: emits_refl)
  have n3: "nasl_name ?s3 = ?nm" by simp
  obtain r1 s4 where d1: "nasl_lint_def e LEXIC_AUX st 1 None ?s3 = (r1, s4)" by fastforce
  have e4: "emits ?K s s4"
    using emits_trans[OF e3 nasl_lint_def_emits[OF st, of ?s3 e LEXIC_AUX 1 None]] d1 by simp
  have n4: "nasl_name s4 = ?nm"
    using nasl_lint_def_keeps(4)[OF st, of e LEXIC_AUX 1 None ?s3] d1 n3 by simp
  show "emits ?K s s'"
  proof (cases "r1 = NULL_CELL")
    case True
    with nl mk d1 have "s' = snd (lint_fail r1 s4)" by (auto simp: nasl_lint_def)
    with e4 show ?thesis by (simp add: emits_def)
  next
    case r1: False
    with nl mk d1 obtain r2 s5 where c: "nasl_lint_call e LEXIC_AUX st s4 = Some (r2, s5)"
      by (auto simp: nasl_lint_def split: option.splits)
    from nasl_lint_call_inc[OF sfx st, of s4 "diags s4" e LEXIC_AUX] n4 c
    have r2: "r2 = FAKE_CELL" and d5: "diags s5 = diags s4"
      by (auto simp: post_def split: if_splits)
    from e4 d5 have e5: "emits ?K s s5" by (simp add: emits_def)
    let ?s7 = "lint_unused_files s5"
    have e7: "emits ?K s ?s7"
      by (rule emits_trans[OF e5]) (rule emits_mono[OF lint_unused_files_emits], auto)
    show ?thesis
    proof (cases "length (unusedfiles ?s7) > 0")
      case True
      with nl mk d1 r1 c r2 have "s' = snd (lint_fail NULL_CELL ?s7)"
        by (auto simp: nasl_lint_def Let_def)
      with e7 show ?thesis by (simp add: emits_def)
    next
      case u: False
      obtain r3 s8 where d0: "nasl_lint_def e LEXIC st 0 None ?s7 = (r3, s8)" by fastforce
      have e8: "emits ?K s s8"
        using emits_trans[OF e7 nasl_lint_def_emits[OF st, of ?s7 e LEXIC 0 None]] d0 by simp
      show ?thesis
      proof (cases "r3 = NULL_CELL")
        case True
        with nl mk d1 r1 c r2 u d0 have "s' = snd (lint_fail r3 s8)"
          by (auto simp: nasl_lint_def Let_def)
        with e8 show ?thesis by (simp add: emits_def)
      next
        case r3: False
        let ?s9 = "add_predef_varname e (s8\<lparr>defined_var := []\<rparr>)"
        have e9: "emits ?K s ?s9" using e8 by (simp add: emits_def)
        obtain r4 s10 where dv: "nasl_lint_defvar LEXIC_AUX st ?s9 = (r4, s10)" by fastforce
        have e10: "emits ?K s s10"
          using emits_trans[OF e9 nasl_lint_defvar_emits[OF st, of ?s9 LEXIC_AUX]] dv by simp
        from nl mk d1 r1 c r2 u d0 r3 dv have "s' = snd (lint_fail r4 (s10\<lparr>defined_var := []\<rparr>))"
          by (auto simp: nasl_lint_def Let_def)
        with e10 show ?thesis by (simp add: emits_def)
      qed
    qed
  qed
qed

theorem inc_script_never_undefined_witness:
  "g_str_has_suffix (nasl_get_filename env_plain (str_val script_undefined) state_inc) ''.inc''
   \<and> script_undefined \<noteq> NULL_CELL \<and> script_undefined \<noteq> FAKE_CELL
   \<and> map_option (\<lambda>(r, s). (r, diags s)) (nasl_lint env_plain script_undefined state_inc)
       = Some (FAKE_CELL, [])
   \<and> (\<forall>dft fdata. reverse_search (Some ''lib.inc'') dft fdata \<noteq> Some 1)"
proof -
  have h: "g_str_has_suffix (nasl_get_filename env_plain (str_val script_undefined) state_inc) ''.inc''"
    by code_simp
  have c: "script_undefined \<noteq> NULL_CELL" "script_undefined \<noteq> FAKE_CELL"
    by (simp_all add: script_undefined_def instr_l_def)
  have n: "nasl_get_filename env_plain (str_val script_undefined) state_inc = Some ''lib.inc''"
    by code_simp
  have v: "map_option (\<lambda>(r, s). (r, diags s)) (nasl_lint env_plain script_undefined state_inc)
       = Some (FAKE_CELL, [])"
    by code_simp
  from inc_script_never_undefined[OF h c] n h c v show ?thesis by simp
qed


subsection \<open>Termination of the reverse search\<close>

lemma script_cycle_sites:
  "(case nasl_lint_def env_cycle LEXIC_AUX script_cycle 1 None
           (snd (make_call_func_list env_cycle LEXIC_AUX script_cycle
                  (lint_init env_cycle script_cycle state0))) of
      (r, s) \<Rightarrow> (r, def_func_tree s, nasl_name s, called_funcs s, ctx_functions (lexic_aux s),
                 func_fnames_tab s)) =
   (FAKE_CELL, [site_ab, site_ua, site_ba], Some ''t.nasl'', [''a'', ''u'', ''b''], [''b'', ''a''],
    [(Some ''b'', Some ''x.inc''), (Some ''u'', Some ''x.inc'')])"
  by code_simp

lemma script_cycle_call:
  assumes "def_func_tree s = [site_ab, site_ua, site_ba]" "nasl_name s = Some ''t.nasl''"
    "called_funcs s = [''a'', ''u'', ''b'']" "ctx_functions (lexic_aux s) = [''b'', ''a'']"
    "func_fnames_tab s = [(Some ''b'', Some ''x.inc''), (Some ''u'', Some ''x.inc'')]"
  shows "nasl_lint_call env_cycle LEXIC_AUX script_cycle s = None"
  using assms
  by (simp add: script_cycle_def instr_l_def fun_def_def fun_call_def env_cycle_def
      call_fun_call_def call_set_position_def get_func_ref_by_name_def ctxt_def ctxt_update_def
      call_mark_used_def
      g_slist_find_custom_def list_cmp_def list_cmp1_def nasl_set_filename_def
      nasl_get_filename_def Let_def site_ab_def site_ba_def site_ua_def
      reverse_search_cycle[unfolded site_ab_def site_ba_def site_ua_def])

text \<open>
  C9. Every traversal of the analyzer should terminate, the reverse search included, also
  on call sites that form a cycle of mutual recursion among functions that the program
  entry does not reach. The tree traversals do (they are total functions above), the
  reverse search does not: on the script with \<open>a\<close> and \<open>b\<close> calling each other from an
  include file, the search for the caller of \<open>u\<close> walks from \<open>a\<close> to \<open>b\<close> and back for
  ever, and the analysis returns no verdict.
\<close>

theorem nasl_lint_cycle_no_result:
  "nasl_lint env_cycle script_cycle state0 = None"
proof -
  obtain r s where rs: "nasl_lint_def env_cycle LEXIC_AUX script_cycle 1 None
           (snd (make_call_func_list env_cycle LEXIC_AUX script_cycle
                  (lint_init env_cycle script_cycle state0))) = (r, s)"
    by fastforce
  with script_cycle_sites have "r = FAKE_CELL" and "def_func_tree s = [site_ab, site_ua, site_ba]"
    "nasl_name s = Some ''t.nasl''" "called_funcs s = [''a'', ''u'', ''b'']"
    "ctx_functions (lexic_aux s) = [''b'', ''a'']"
    "func_fnames_tab s = [(Some ''b'', Some ''x.inc''), (Some ''u'', Some ''x.inc'')]"
    by simp_all
  with rs script_cycle_call[of s] show ?thesis
    by (simp add: nasl_lint_def)
qed

end
